theory Spec2Isabelle
  imports Main
begin

section \<open>Values shared by the session lifecycle manager\<close>

text \<open>
  A tenant is addressed by its session id, a string. A client object created by
  \<^verbatim>\<open>new Client(...)\<close> is addressed by a handle, so that two clients registered
  one after the other under the same id can be told apart.
\<close>

type_synonym sid = string
type_synonym handle = nat

text \<open>
  A thrown value: an \<^verbatim>\<open>Error\<close> with its message and, for file-system errors, its
  \<^verbatim>\<open>code\<close>; or a value that is not an instance of \<^verbatim>\<open>Error\<close>.
\<close>

datatype error = JsError string "string option" | NonError

text \<open>
  The fate of a promise that is awaited: it resolves with a value, rejects with an error,
  or never settles.
\<close>

datatype 'a outcome = Resolved 'a | Rejected error | Pending

record ValidationResult =
  success :: bool
  message :: string
  state :: "string option"

definition errorMessage :: "error \<Rightarrow> string" where
  \<comment> \<open>\<^verbatim>\<open>error instanceof Error ? error.message : 'Unknown error'\<close>\<close>
  "errorMessage e = (case e of JsError m _ \<Rightarrow> m | NonError \<Rightarrow> ''Unknown error'')"

definition failure :: "error \<Rightarrow> ValidationResult" where
  "failure e = \<lparr>success = False, message = errorMessage e, state = None\<rparr>"

section \<open>Configuration (config.ts)\<close>

record config =
  sessionFolderPath :: string
  baseWebhookURL :: "string option"
  maxAttachmentSize :: int
  setMessagesAsSeen :: bool
  disabledCallbacks :: "string list"
  webVersion :: "string option"
  webVersionCacheType :: string
  recoverSessions :: bool
  env :: "string \<Rightarrow> string option"

definition path_sep :: string where
  "path_sep = ''/''"

definition toUpperCase :: "string \<Rightarrow> string" where
  \<comment> \<open>on the ASCII letters\<close>
  "toUpperCase s =
     map (\<lambda>c. if 97 \<le> (of_char c :: nat) \<and> (of_char c :: nat) \<le> 122
              then char_of ((of_char c :: nat) - 32) else c) s"

definition toLowerCase :: "string \<Rightarrow> string" where
  "toLowerCase s =
     map (\<lambda>c. if 65 \<le> (of_char c :: nat) \<and> (of_char c :: nat) \<le> 90
              then char_of ((of_char c :: nat) + 32) else c) s"

section \<open>The Event Gate (utils.ts)\<close>

text \<open>
  \<^verbatim>\<open>new Promise((resolve, reject) => { if (!disabledCallbacks.includes(event)) { resolve() } })\<close>:
  the executor calls \<^verbatim>\<open>resolve\<close> for an event that is not in the list and calls
  nothing otherwise.
\<close>

definition checkIfEventisEnabled :: "config \<Rightarrow> string \<Rightarrow> unit outcome" where
  "checkIfEventisEnabled cfg event =
     (if event \<notin> set (disabledCallbacks cfg) then Resolved () else Pending)"

section \<open>The file system under the credential root\<close>

text \<open>
  Node's \<^verbatim>\<open>fs\<close> is not part of the repository. A file system is given by the existing
  directories, keyed by real path, each with its entries in \<^verbatim>\<open>readdir\<close> order, and by
  \<open>canon\<close>, the real path that \<^verbatim>\<open>realpath\<close> computes for a path (normalisation of
  \<^verbatim>\<open>..\<close> segments and resolution of symbolic links). An entry carries the error codes
  that successive \<^verbatim>\<open>unlink\<close> attempts on it fail with before one succeeds
  (\<^verbatim>\<open>EBUSY\<close> for a file still held by the browser, \<^verbatim>\<open>EISDIR\<close> for a subdirectory).
\<close>

type_synonym entry = "string \<times> string list"

record filesys =
  canon :: "string \<Rightarrow> string"
  dirs :: "string \<Rightarrow> entry list option"

definition errno :: "string \<Rightarrow> error" where
  \<comment> \<open>a file-system error; of its message only the leading code is kept\<close>
  "errno c = JsError c (Some c)"

definition realpath :: "filesys \<Rightarrow> string \<Rightarrow> error + string" where
  "realpath f p = (case dirs f (canon f p) of None \<Rightarrow> Inl (errno ''ENOENT'')
                   | Some _ \<Rightarrow> Inr (canon f p))"

definition existsSync :: "filesys \<Rightarrow> string \<Rightarrow> bool" where
  "existsSync f p = (case realpath f p of Inl _ \<Rightarrow> False | Inr _ \<Rightarrow> True)"

text \<open>The operations below receive a real path, as returned by \<open>realpath\<close>.\<close>

definition readdirAt :: "filesys \<Rightarrow> string \<Rightarrow> error + string list" where
  "readdirAt f rp = (case dirs f rp of None \<Rightarrow> Inl (errno ''ENOENT'')
                     | Some es \<Rightarrow> Inr (map fst es))"

definition readdir :: "filesys \<Rightarrow> string \<Rightarrow> error + string list" where
  "readdir f p = (case realpath f p of Inl e \<Rightarrow> Inl e | Inr rp \<Rightarrow> readdirAt f rp)"

fun unlinkEntry :: "string \<Rightarrow> entry list \<Rightarrow> (error option \<times> entry list) option" where
  "unlinkEntry name [] = None"
| "unlinkEntry name ((n, codes) # es) =
     (if n = name then
        (case codes of [] \<Rightarrow> Some (None, es)
         | c # cs \<Rightarrow> Some (Some (errno c), (n, cs) # es))
      else (case unlinkEntry name es of None \<Rightarrow> None
            | Some (r, es') \<Rightarrow> Some (r, (n, codes) # es')))"

definition unlinkAt :: "filesys \<Rightarrow> string \<Rightarrow> string \<Rightarrow> error option \<times> filesys" where
  \<comment> \<open>\<^verbatim>\<open>unlink(path.join(dir, name))\<close>; \<open>None\<close> is success\<close>
  "unlinkAt f rp name =
     (case dirs f rp of None \<Rightarrow> (Some (errno ''ENOENT''), f)
      | Some es \<Rightarrow>
          (case unlinkEntry name es of None \<Rightarrow> (Some (errno ''ENOENT''), f)
           | Some (r, es') \<Rightarrow> (r, f\<lparr>dirs := (dirs f)(rp := Some es')\<rparr>)))"

text \<open>
  The directory that holds a real path, and the name of the path in it
  (\<^verbatim>\<open>path.dirname\<close> and \<^verbatim>\<open>path.basename\<close> of an absolute path).
\<close>

definition dirname :: "string \<Rightarrow> string" where
  "dirname p =
     (let d = rev (drop 1 (dropWhile (\<lambda>c. c \<noteq> CHR ''/'') (rev p)))
      in if d = [] then ''/'' else d)"

definition basename :: "string \<Rightarrow> string" where
  "basename p = rev (takeWhile (\<lambda>c. c \<noteq> CHR ''/'') (rev p))"

text \<open>
  \<^verbatim>\<open>rmdir\<close> removes an empty directory: the directory is gone, and so is its name
  in the listing of the directory that holds it.
\<close>

definition rmdirAt :: "filesys \<Rightarrow> string \<Rightarrow> error option \<times> filesys" where
  "rmdirAt f rp =
     (case dirs f rp of None \<Rightarrow> (Some (errno ''ENOENT''), f)
      | Some [] \<Rightarrow>
          (None,
           f\<lparr>dirs := ((dirs f)(dirname rp :=
                         map_option (filter (\<lambda>e. fst e \<noteq> basename rp)) (dirs f (dirname rp))))
                      (rp := None)\<rparr>)
      | Some (e # es) \<Rightarrow> (Some (errno ''ENOTEMPTY''), f))"

definition startsWith :: "string \<Rightarrow> string \<Rightarrow> bool" where
  "startsWith s p = (take (length p) s = p)"

section \<open>The driver and the state of the process\<close>

text \<open>
  The client library (whatsapp-web.js over a browser) is outside the repository. What it
  does when called is a parameter: whether a constructor throws, whether the page of a
  client materialises within a bounded wait, and how each asynchronous call settles.
\<close>

datatype webVersionCache = CacheLocal | CacheRemote string | CacheNone

record clientOptions =
  authClientId :: sid
  authDataPath :: string
  optWebVersion :: "string option"
  optWebVersionCache :: "webVersionCache option"

record driver =
  newLocalAuth :: "sid \<Rightarrow> error option"
  newClient :: "clientOptions \<Rightarrow> error option"
  initialize :: "handle \<Rightarrow> unit outcome"
  materialises :: "handle \<Rightarrow> bool"
  pageIsClosed :: "handle \<Rightarrow> error + bool"
  getState :: "handle \<Rightarrow> string option outcome"
  logout :: "handle \<Rightarrow> unit outcome"
  destroy :: "handle \<Rightarrow> unit outcome"
  browserIsConnected :: "handle \<Rightarrow> nat \<Rightarrow> bool"

text \<open>
  A listener attached with \<^verbatim>\<open>client.on\<close>: the event name and the two values its
  closure captured, the session id and the session's webhook URL.
\<close>

type_synonym listener = "string \<times> sid \<times> string option"

text \<open>
  \<open>pupPage\<close> is \<open>None\<close> until the driver has created the page; then it holds the page's
  one-shot listeners (\<^verbatim>\<open>pupPage.once\<close>), each with the session id it captured.
\<close>

record client =
  options :: clientOptions
  pupPage :: "(string \<times> sid) list option"
  pupBrowser :: bool
  listeners :: "listener list"
  qr :: "string option"

text \<open>
  The calls that are recorded: the driver calls with an effect outside the process, and
  the entries into \<^verbatim>\<open>deleteSession\<close> and into the recovery routine
  \<^verbatim>\<open>restartSession\<close>.
\<close>

datatype call =
    Initialize handle | Logout handle | Destroy handle | SendSeen handle
  | DeleteSession sid | RestartSession sid

text \<open>A webhook request: URL, session id, data type, data.\<close>

datatype post = Post string sid string string

text \<open>
  A suspended continuation: the recovery wiring waiting for the page of a client, and a
  restart waiting for \<^verbatim>\<open>client.destroy()\<close> to settle.
\<close>

datatype task = AwaitPage sid handle | AwaitDestroy sid handle

text \<open>
  \<open>sessions\<close> is the module-level \<^verbatim>\<open>Map\<close>. \<open>timers\<close> adds up the milliseconds of the
  fixed \<^verbatim>\<open>setTimeout\<close> waits. Console output is not part of the state.
\<close>

record world =
  sessions :: "sid \<Rightarrow> handle option"
  clients :: "handle \<Rightarrow> client"
  next_handle :: handle
  fs :: filesys
  trace :: "call list"
  webhooks :: "post list"
  tasks :: "task list"
  timers :: nat

definition updClient :: "handle \<Rightarrow> (client \<Rightarrow> client) \<Rightarrow> world \<Rightarrow> world" where
  "updClient h g w = w\<lparr>clients := (clients w)(h := g (clients w h))\<rparr>"

definition record_call :: "call \<Rightarrow> world \<Rightarrow> world" where
  "record_call c w = w\<lparr>trace := trace w @ [c]\<rparr>"

section \<open>waitForNestedObject (utils.ts), on the path \<^verbatim>\<open>pupPage\<close>\<close>

text \<open>
  The poll resolves once \<^verbatim>\<open>client.pupPage\<close> is set and rejects after the maximum
  wait. Whether the driver sets the page (and the browser) in that time is the driver's.
\<close>

definition waitForNestedObject :: "driver \<Rightarrow> handle \<Rightarrow> world \<Rightarrow> unit outcome \<times> world" where
  "waitForNestedObject drv h w =
     (if pupPage (clients w h) \<noteq> None then (Resolved (), w)
      else if materialises drv h
      then (Resolved (), updClient h (\<lambda>c. c\<lparr>pupPage := Some [], pupBrowser := True\<rparr>) w)
      else (Rejected (JsError ''Timeout waiting for nested object'' None), w))"

section \<open>validateSession\<close>

definition validateSession ::
  "driver \<Rightarrow> sid \<Rightarrow> world \<Rightarrow> ValidationResult outcome \<times> world" where
  "validateSession drv sessionId w =
     (case sessions w sessionId of
        None \<Rightarrow> (Resolved \<lparr>success = False, message = ''session_not_found'', state = None\<rparr>, w)
      | Some h \<Rightarrow>
          (case waitForNestedObject drv h w of
             (Rejected e, w1) \<Rightarrow> (Resolved (failure e), w1)
           | (Pending, w1) \<Rightarrow> (Pending, w1)
           | (Resolved _, w1) \<Rightarrow>
               (case (if pupPage (clients w1 h) \<noteq> None then pageIsClosed drv h
                      else Inr False) of
                  Inl e \<Rightarrow> (Resolved (failure e), w1)
                | Inr True \<Rightarrow>
                    (Resolved \<lparr>success = False, message = ''browser tab closed'',
                       state = None\<rparr>, w1)
                | Inr False \<Rightarrow>
                    (case getState drv h of
                       Rejected e \<Rightarrow> (Resolved (failure e), w1)
                     | Pending \<Rightarrow> (Pending, w1)
                     | Resolved st \<Rightarrow>
                         if st = Some ''CONNECTED''
                         then (Resolved \<lparr>success = True, message = ''session_connected'',
                                 state = Some ''CONNECTED''\<rparr>, w1)
                         else (Resolved \<lparr>success = False, message = ''session_not_connected'',
                                 state = st\<rparr>, w1)))))"

section \<open>initializeEvents\<close>

definition gatedEvents :: "string list" where
  \<comment> \<open>the events subscribed to behind \<^verbatim>\<open>checkIfEventisEnabled(...).then\<close>, in source order\<close>
  "gatedEvents =
     [''auth_failure'', ''authenticated'', ''call'', ''change_state'', ''disconnected'',
      ''group_join'', ''group_leave'', ''group_update'', ''loading_screen'',
      ''media_uploaded'', ''message'', ''message_ack'', ''message_create'',
      ''message_reaction'', ''message_edit'', ''message_ciphertext'',
      ''message_revoke_everyone'', ''message_revoke_me'', ''ready'', ''contact_changed'',
      ''chat_removed'', ''chat_archived'', ''unread_count'']"

definition sessionWebhookOf :: "config \<Rightarrow> sid \<Rightarrow> string option" where
  \<comment> \<open>\<^verbatim>\<open>process.env[`${sessionId.toUpperCase()}_WEBHOOK_URL`] || baseWebhookURL\<close>\<close>
  "sessionWebhookOf cfg sessionId =
     (case env cfg (toUpperCase sessionId @ ''_WEBHOOK_URL'') of
        Some u \<Rightarrow> if u \<noteq> [] then Some u else baseWebhookURL cfg
      | None \<Rightarrow> baseWebhookURL cfg)"

text \<open>
  The \<^verbatim>\<open>qr\<close> listener is attached in the synchronous part. Each other listener is
  attached in the \<^verbatim>\<open>then\<close> continuation of the gate's promise, which runs right
  after the synchronous part when the promise is resolved and never when it is pending.
  With \<^verbatim>\<open>recoverSessions\<close> the recovery wiring is left waiting for the page.
\<close>

definition initializeEvents :: "config \<Rightarrow> handle \<Rightarrow> sid \<Rightarrow> world \<Rightarrow> world" where
  "initializeEvents cfg h sessionId w =
     (let sessionWebhook = sessionWebhookOf cfg sessionId;
          w1 = (if recoverSessions cfg then w\<lparr>tasks := tasks w @ [AwaitPage sessionId h]\<rparr> else w);
          w2 = updClient h (\<lambda>c. c\<lparr>listeners := listeners c @ [(''qr'', sessionId, sessionWebhook)]\<rparr>) w1;
          enabled = filter (\<lambda>ev. checkIfEventisEnabled cfg ev = Resolved ()) gatedEvents
      in updClient h
           (\<lambda>c. c\<lparr>listeners := listeners c @ map (\<lambda>ev. (ev, sessionId, sessionWebhook)) enabled\<rparr>) w2)"

section \<open>setupSession\<close>

definition webVersionCacheOf :: "config \<Rightarrow> string \<Rightarrow> webVersionCache" where
  "webVersionCacheOf cfg v =
     (if toLowerCase (webVersionCacheType cfg) = ''local'' then CacheLocal
      else if toLowerCase (webVersionCacheType cfg) = ''remote''
      then CacheRemote (''https://raw.githubusercontent.com/wppconnect-team/wa-version/main/html/''
                          @ v @ ''.html'')
      else CacheNone)"

definition clientOptionsOf :: "config \<Rightarrow> sid \<Rightarrow> clientOptions" where
  "clientOptionsOf cfg sessionId =
     \<lparr>authClientId = sessionId, authDataPath = sessionFolderPath cfg,
      optWebVersion = (case webVersion cfg of Some v \<Rightarrow> if v \<noteq> [] then Some v else None
                       | None \<Rightarrow> None),
      optWebVersionCache = (case webVersion cfg of
                              Some v \<Rightarrow> if v \<noteq> [] then Some (webVersionCacheOf cfg v) else None
                            | None \<Rightarrow> None)\<rparr>"

definition newClientObject :: "clientOptions \<Rightarrow> client" where
  "newClientObject opts =
     \<lparr>options = opts, pupPage = None, pupBrowser = False, listeners = [], qr = None\<rparr>"

text \<open>
  The body of \<^verbatim>\<open>setupSession\<close> is in a \<^verbatim>\<open>try\<close> whose \<^verbatim>\<open>catch\<close> returns the
  failure result of the error; what can throw in it are the two constructors of the
  driver. \<^verbatim>\<open>client.initialize()\<close> is called and not awaited: however its promise
  settles, a rejection is only logged.
\<close>

definition setupSession :: "config \<Rightarrow> driver \<Rightarrow> sid \<Rightarrow> world \<Rightarrow> ValidationResult \<times> world" where
  "setupSession cfg drv sessionId w =
     (if sessions w sessionId \<noteq> None
      then (\<lparr>success = False, message = ''Session already exists for: '' @ sessionId,
             state = None\<rparr>, w)
      else (case newLocalAuth drv sessionId of
              Some e \<Rightarrow> (failure e, w)
            | None \<Rightarrow>
                (case newClient drv (clientOptionsOf cfg sessionId) of
                   Some e \<Rightarrow> (failure e, w)
                 | None \<Rightarrow>
                     (let h = next_handle w;
                          w1 = w\<lparr>clients := (clients w)(h := newClientObject (clientOptionsOf cfg sessionId)),
                                 next_handle := Suc h\<rparr>;
                          w2 = record_call (Initialize h) w1;
                          w3 = initializeEvents cfg h sessionId w2;
                          w4 = w3\<lparr>sessions := (sessions w3)(sessionId := Some h)\<rparr>
                      in (\<lparr>success = True, message = ''Session initiated successfully'',
                           state = Some ''CONNECTED''\<rparr>, w4)))))"

section \<open>deleteSessionFolder\<close>

definition errCode :: "error \<Rightarrow> string option" where
  "errCode e = (case e of JsError _ c \<Rightarrow> c | NonError \<Rightarrow> None)"

text \<open>
  The loop over the files of the directory: an \<^verbatim>\<open>unlink\<close> that fails with
  \<^verbatim>\<open>EPERM\<close> or \<^verbatim>\<open>EBUSY\<close> is tried once more after a second; any other error,
  and the error of the second attempt, is thrown.
\<close>

fun unlinkFiles :: "string \<Rightarrow> string list \<Rightarrow> world \<Rightarrow> error option \<times> world" where
  "unlinkFiles rp [] w = (None, w)"
| "unlinkFiles rp (file # files) w =
     (case unlinkAt (fs w) rp file of
        (None, f1) \<Rightarrow> unlinkFiles rp files (w\<lparr>fs := f1\<rparr>)
      | (Some e, f1) \<Rightarrow>
          if errCode e = Some ''EPERM'' \<or> errCode e = Some ''EBUSY''
          then (case unlinkAt f1 rp file of
                  (None, f2) \<Rightarrow> unlinkFiles rp files (w\<lparr>fs := f2, timers := timers w + 1000\<rparr>)
                | (Some e2, f2) \<Rightarrow> (Some e2, w\<lparr>fs := f2, timers := timers w + 1000\<rparr>))
          else (Some e, w\<lparr>fs := f1\<rparr>))"

definition traversalError :: error where
  "traversalError = JsError ''Invalid path: Directory traversal detected'' None"

definition targetDirPath :: "config \<Rightarrow> sid \<Rightarrow> string" where
  \<comment> \<open>\<^verbatim>\<open>path.join(sessionFolderPath, `session-${sessionId}`)\<close>; the normal form that
      \<^verbatim>\<open>path.join\<close> also computes is left to \<open>canon\<close>, the path being used for
      \<^verbatim>\<open>realpath\<close> only\<close>
  "targetDirPath cfg sessionId = sessionFolderPath cfg @ path_sep @ ''session-'' @ sessionId"

definition deleteSessionFolder :: "config \<Rightarrow> sid \<Rightarrow> world \<Rightarrow> unit outcome \<times> world" where
  "deleteSessionFolder cfg sessionId w =
     (case realpath (fs w) (targetDirPath cfg sessionId) of
        Inl e \<Rightarrow> (Rejected e, w)
      | Inr resolvedTargetDirPath \<Rightarrow>
          (case realpath (fs w) (sessionFolderPath cfg) of
             Inl e \<Rightarrow> (Rejected e, w)
           | Inr resolvedSessionPath \<Rightarrow>
               (let safeSessionPath = resolvedSessionPath @ path_sep in
                if \<not> startsWith resolvedTargetDirPath safeSessionPath
                then (Rejected traversalError, w)
                else (case readdirAt (fs w) resolvedTargetDirPath of
                        Inl e \<Rightarrow> (Rejected e, w)
                      | Inr files \<Rightarrow>
                          (case unlinkFiles resolvedTargetDirPath files w of
                             (Some e, w1) \<Rightarrow> (Rejected e, w1)
                           | (None, w1) \<Rightarrow>
                               (case rmdirAt (fs w1) resolvedTargetDirPath of
                                  (Some e, f) \<Rightarrow> (Rejected e, w1\<lparr>fs := f\<rparr>)
                                | (None, f) \<Rightarrow> (Resolved (), w1\<lparr>fs := f\<rparr>)))))))"

section \<open>deleteSession\<close>

definition removeAllListeners :: "handle \<Rightarrow> string \<Rightarrow> world \<Rightarrow> world" where
  \<comment> \<open>\<^verbatim>\<open>client.pupPage.removeAllListeners(signal)\<close>\<close>
  "removeAllListeners h signal w =
     updClient h (\<lambda>c. c\<lparr>pupPage := map_option (filter (\<lambda>l. fst l \<noteq> signal)) (pupPage c)\<rparr>) w"

text \<open>
  The wait for the browser to disconnect: \<^verbatim>\<open>isConnected()\<close> is asked before each
  one-second wait, at most ten of them. The result is the number of waits.
\<close>

function pollBrowser :: "driver \<Rightarrow> handle \<Rightarrow> nat \<Rightarrow> nat" where
  "pollBrowser drv h maxDelay =
     (if browserIsConnected drv h maxDelay \<and> maxDelay < 10
      then pollBrowser drv h (Suc maxDelay) else maxDelay)"
  by pat_completeness auto
termination
  by (relation "measure (\<lambda>(drv, h, maxDelay). 10 - maxDelay)") auto

definition signOut :: "driver \<Rightarrow> handle \<Rightarrow> ValidationResult \<Rightarrow> world \<Rightarrow> unit outcome \<times> world" where
  \<comment> \<open>the \<^verbatim>\<open>if (validation.success) ... else if (validation.message === ...) ...\<close>
      of \<^verbatim>\<open>deleteSession\<close>\<close>
  "signOut drv h validation w =
     (if success validation then (logout drv h, record_call (Logout h) w)
      else if message validation = ''session_not_connected''
      then (destroy drv h, record_call (Destroy h) w)
      else (Resolved (), w))"

text \<open>
  The first steps of \<^verbatim>\<open>deleteSession\<close> for a client with a page: the one-shot
  listeners are detached and the client is signed out; then comes the wait for the
  browser.
\<close>

definition signedOut ::
  "driver \<Rightarrow> handle \<Rightarrow> ValidationResult \<Rightarrow> sid \<Rightarrow> world \<Rightarrow> unit outcome \<times> world" where
  "signedOut drv h validation sessionId w =
     signOut drv h validation
       (removeAllListeners h ''error'' (removeAllListeners h ''close''
          (record_call (DeleteSession sessionId) w)))"

definition afterSignOut :: "driver \<Rightarrow> handle \<Rightarrow> ValidationResult \<Rightarrow> sid \<Rightarrow> world \<Rightarrow> world" where
  "afterSignOut drv h validation sessionId w =
     (let w2 = snd (signedOut drv h validation sessionId w)
      in if pupBrowser (clients w2 h)
         then w2\<lparr>timers := timers w2 + 1000 * pollBrowser drv h 0\<rparr> else w2)"

definition deleteSession ::
  "config \<Rightarrow> driver \<Rightarrow> sid \<Rightarrow> ValidationResult \<Rightarrow> world \<Rightarrow> unit outcome \<times> world" where
  "deleteSession cfg drv sessionId validation w =
     (let w' = record_call (DeleteSession sessionId) w in
      case sessions w' sessionId of
        None \<Rightarrow> (Resolved (), w')
      | Some h \<Rightarrow>
          (case pupPage (clients w' h) of
             None \<Rightarrow> (Resolved (), w')
           | Some _ \<Rightarrow>
               (case fst (signedOut drv h validation sessionId w) of
                  Rejected e \<Rightarrow> (Rejected e, snd (signedOut drv h validation sessionId w))
                | Pending \<Rightarrow> (Pending, snd (signedOut drv h validation sessionId w))
                | Resolved _ \<Rightarrow>
                    (case deleteSessionFolder cfg sessionId
                            (afterSignOut drv h validation sessionId w) of
                       (Resolved _, w4) \<Rightarrow>
                         (Resolved (), w4\<lparr>sessions := (sessions w4)(sessionId := None)\<rparr>)
                     | (Rejected e, w4) \<Rightarrow> (Rejected e, w4)
                     | (Pending, w4) \<Rightarrow> (Pending, w4)))))"

section \<open>flushSessions\<close>

definition matchSession :: "string \<Rightarrow> sid option" where
  \<comment> \<open>\<^verbatim>\<open>file.match(/^session-(.+)$/)\<close>: the dot matches no line terminator\<close>
  "matchSession file =
     (let rest = drop 8 file in
      if take 8 file = ''session-'' \<and> rest \<noteq> []
         \<and> (\<forall>c \<in> set rest. c \<noteq> CHR 0x0A \<and> c \<noteq> CHR 0x0D)
      then Some rest else None)"

text \<open>
  The loop over the directory entries. The inner \<^verbatim>\<open>try\<close> catches whatever
  \<^verbatim>\<open>validateSession\<close> or \<^verbatim>\<open>deleteSession\<close> throws and goes on with the next entry.
\<close>

fun flushLoop :: "config \<Rightarrow> driver \<Rightarrow> bool \<Rightarrow> string list \<Rightarrow> world \<Rightarrow> unit outcome \<times> world" where
  "flushLoop cfg drv deleteOnlyInactive [] w = (Resolved (), w)"
| "flushLoop cfg drv deleteOnlyInactive (file # files) w =
     (case matchSession file of
        None \<Rightarrow> flushLoop cfg drv deleteOnlyInactive files w
      | Some sessionId \<Rightarrow>
          (case validateSession drv sessionId w of
             (Pending, w1) \<Rightarrow> (Pending, w1)
           | (Rejected e, w1) \<Rightarrow> flushLoop cfg drv deleteOnlyInactive files w1
           | (Resolved validation, w1) \<Rightarrow>
               if \<not> deleteOnlyInactive \<or> \<not> success validation
               then (case deleteSession cfg drv sessionId validation w1 of
                       (Pending, w2) \<Rightarrow> (Pending, w2)
                     | (Rejected e, w2) \<Rightarrow> flushLoop cfg drv deleteOnlyInactive files w2
                     | (Resolved _, w2) \<Rightarrow> flushLoop cfg drv deleteOnlyInactive files w2)
               else flushLoop cfg drv deleteOnlyInactive files w1))"

definition flushSessions :: "config \<Rightarrow> driver \<Rightarrow> bool \<Rightarrow> world \<Rightarrow> unit outcome \<times> world" where
  "flushSessions cfg drv deleteOnlyInactive w =
     (if \<not> existsSync (fs w) (sessionFolderPath cfg) then (Resolved (), w)
      else (case readdir (fs w) (sessionFolderPath cfg) of
              Inl e \<Rightarrow> (Rejected e, w)
            | Inr files \<Rightarrow> flushLoop cfg drv deleteOnlyInactive files w))"

definition matched :: "string list \<Rightarrow> sid list" where
  \<comment> \<open>the tenant ids of the entries that match\<close>
  "matched files =
     concat (map (\<lambda>file. case matchSession file of None \<Rightarrow> [] | Some i \<Rightarrow> [i]) files)"

definition discovered :: "config \<Rightarrow> world \<Rightarrow> sid list" where
  \<comment> \<open>the tenant ids of the credential directories that \<^verbatim>\<open>flushSessions\<close> finds\<close>
  "discovered cfg w =
     (case readdir (fs w) (sessionFolderPath cfg) of Inl e \<Rightarrow> [] | Inr files \<Rightarrow> matched files)"

definition connected :: "driver \<Rightarrow> world \<Rightarrow> sid \<Rightarrow> bool" where
  \<comment> \<open>\<^verbatim>\<open>validateSession\<close> returns success for the tenant\<close>
  "connected drv w sessionId =
     (case fst (validateSession drv sessionId w) of Resolved v \<Rightarrow> success v | _ \<Rightarrow> False)"

section \<open>The listeners that initializeEvents attaches\<close>

text \<open>
  An event as the driver emits it: its name, its payload as it is sent to the webhook,
  and for a message whether it has media, the size \<^verbatim>\<open>message._data?.size\<close>, and
  how \<^verbatim>\<open>downloadMedia()\<close> and \<^verbatim>\<open>getChat()\<close> settle.
\<close>

record event =
  evName :: string
  evData :: string
  hasMedia :: bool
  mediaSize :: "int option"
  downloadMedia :: "string outcome"
  getChat :: "unit outcome"

definition triggerWebhook :: "string option \<Rightarrow> sid \<Rightarrow> string \<Rightarrow> string \<Rightarrow> world \<Rightarrow> world" where
  \<comment> \<open>\<^verbatim>\<open>if (sessionWebhook) { triggerWebhook(...) } else { console.warn(...) }\<close>\<close>
  "triggerWebhook sessionWebhook sessionId dataType data w =
     (case sessionWebhook of
        None \<Rightarrow> w
      | Some u \<Rightarrow> if u \<noteq> [] then w\<lparr>webhooks := webhooks w @ [Post u sessionId dataType data]\<rparr>
                  else w)"

definition sendSeen :: "config \<Rightarrow> handle \<Rightarrow> event \<Rightarrow> world \<Rightarrow> world" where
  "sendSeen cfg h ev w =
     (if setMessagesAsSeen cfg
      then (case getChat ev of Resolved _ \<Rightarrow> record_call (SendSeen h) w | _ \<Rightarrow> w)
      else w)"

text \<open>
  The body of the listener of each event. The configuration is the one in force when the
  event occurs: the \<^verbatim>\<open>qr\<close> listener and the media download consult the gate then.
\<close>

definition runListener :: "config \<Rightarrow> handle \<Rightarrow> listener \<Rightarrow> event \<Rightarrow> world \<Rightarrow> world" where
  "runListener cfg h l ev w =
     (case l of (name, sessionId, sessionWebhook) \<Rightarrow>
        if name = ''qr'' then
          (let w1 = updClient h (\<lambda>c. c\<lparr>qr := Some (evData ev)\<rparr>) w in
           case checkIfEventisEnabled cfg ''qr'' of
             Resolved _ \<Rightarrow> triggerWebhook sessionWebhook sessionId ''qr'' (evData ev) w1
           | _ \<Rightarrow> w1)
        else if name = ''auth_failure'' then
          triggerWebhook sessionWebhook sessionId ''status'' (evData ev) w
        else if name = ''message'' then
          (let w1 = triggerWebhook sessionWebhook sessionId ''message'' (evData ev) w;
               w2 = (if hasMedia ev
                        \<and> (case mediaSize ev of None \<Rightarrow> False | Some n \<Rightarrow> n < maxAttachmentSize cfg)
                     then (case checkIfEventisEnabled cfg ''media'' of
                             Resolved _ \<Rightarrow>
                               (case downloadMedia ev of
                                  Resolved m \<Rightarrow>
                                    triggerWebhook sessionWebhook sessionId ''media'' (m @ evData ev) w1
                                | _ \<Rightarrow> w1)
                           | _ \<Rightarrow> w1)
                     else w1)
           in sendSeen cfg h ev w2)
        else if name = ''message_ack'' \<or> name = ''message_create'' then
          sendSeen cfg h ev (triggerWebhook sessionWebhook sessionId name (evData ev) w)
        else triggerWebhook sessionWebhook sessionId name (evData ev) w)"

definition emit :: "config \<Rightarrow> handle \<Rightarrow> event \<Rightarrow> world \<Rightarrow> world" where
  \<comment> \<open>the driver emits an event on a client: the listeners attached for its name run\<close>
  "emit cfg h ev w =
     foldl (\<lambda>w' l. runListener cfg h l ev w') w
       (filter (\<lambda>l. fst l = evName ev) (listeners (clients w h)))"

section \<open>Crash recovery\<close>

text \<open>
  \<^verbatim>\<open>restartSession\<close>, the routine of both one-shot listeners, up to its
  \<^verbatim>\<open>await client.destroy()\<close>: the rest of it is a suspended task.
\<close>

definition restartSession :: "sid \<Rightarrow> handle \<Rightarrow> world \<Rightarrow> world" where
  "restartSession sessionId h w =
     (let w1 = record_call (RestartSession sessionId) w;
          w2 = w1\<lparr>sessions := (sessions w1)(sessionId := None)\<rparr>;
          w3 = record_call (Destroy h) w2
      in w3\<lparr>tasks := tasks w3 @ [AwaitDestroy sessionId h]\<rparr>)"

definition pageEmit :: "handle \<Rightarrow> string \<Rightarrow> world \<Rightarrow> world" where
  \<comment> \<open>the page of a client emits a signal: its one-shot listeners for that signal are
      removed and run\<close>
  "pageEmit h signal w =
     (case pupPage (clients w h) of
        None \<Rightarrow> w
      | Some ls \<Rightarrow>
          foldl (\<lambda>w' l. restartSession (snd l) h w')
            (updClient h (\<lambda>c. c\<lparr>pupPage := Some (filter (\<lambda>l. fst l \<noteq> signal) ls)\<rparr>) w)
            (filter (\<lambda>l. fst l = signal) ls))"

text \<open>
  A suspended task goes on. The recovery wiring attaches the two one-shot listeners once
  the page is there (and only logs when the wait times out). A restart, once
  \<^verbatim>\<open>client.destroy()\<close> has settled either way, calls \<^verbatim>\<open>setupSession\<close>.
\<close>

definition resume :: "config \<Rightarrow> driver \<Rightarrow> task \<Rightarrow> world \<Rightarrow> world" where
  "resume cfg drv t w =
     (if t \<notin> set (tasks w) then w
      else (case t of
              AwaitPage sessionId h \<Rightarrow>
                (case waitForNestedObject drv h (w\<lparr>tasks := remove1 t (tasks w)\<rparr>) of
                   (Resolved _, w1) \<Rightarrow>
                     updClient h
                       (\<lambda>c. c\<lparr>pupPage := map_option
                                (\<lambda>ls. ls @ [(''close'', sessionId), (''error'', sessionId)])
                                (pupPage c)\<rparr>) w1
                 | (_, w1) \<Rightarrow> w1)
            | AwaitDestroy sessionId h \<Rightarrow>
                (case destroy drv h of
                   Pending \<Rightarrow> w
                 | _ \<Rightarrow> snd (setupSession cfg drv sessionId (w\<lparr>tasks := remove1 t (tasks w)\<rparr>)))))"

section \<open>A concrete configuration, driver and process state\<close>

definition cfg0 :: config where
  "cfg0 = \<lparr>sessionFolderPath = ''./sessions'', baseWebhookURL = Some ''http://localhost:3000/hook'',
           maxAttachmentSize = 10000000, setMessagesAsSeen = False, disabledCallbacks = [],
           webVersion = None, webVersionCacheType = ''none'', recoverSessions = False,
           env = (\<lambda>k. None)\<rparr>"

text \<open>
  A driver whose auth strategy refuses, as \<^verbatim>\<open>LocalAuth\<close> does, a client id with a
  character other than a letter, a digit, an underscore or a hyphen; whose pages
  materialise; and whose clients are connected.
\<close>

definition idChar :: "char \<Rightarrow> bool" where
  "idChar c = (let n = (of_char c :: nat) in
     (48 \<le> n \<and> n \<le> 57) \<or> (65 \<le> n \<and> n \<le> 90) \<or> (97 \<le> n \<and> n \<le> 122) \<or> n = 95 \<or> n = 45)"

definition drv0 :: driver where
  "drv0 = \<lparr>newLocalAuth = (\<lambda>i. if i \<noteq> [] \<and> \<not> list_all idChar i
                             then Some (JsError ''Invalid clientId. Only alphanumeric characters, underscores and hyphens are allowed.'' None)
                             else None),
           newClient = (\<lambda>opts. None),
           initialize = (\<lambda>h. Resolved ()),
           materialises = (\<lambda>h. True),
           pageIsClosed = (\<lambda>h. Inr False),
           getState = (\<lambda>h. Resolved (Some ''CONNECTED'')),
           logout = (\<lambda>h. Resolved ()),
           destroy = (\<lambda>h. Resolved ()),
           browserIsConnected = (\<lambda>h k. False)\<rparr>"

definition fs0 :: filesys where
  \<comment> \<open>the credential root with the directories of tenants 1 and 2\<close>
  "fs0 = \<lparr>canon = (\<lambda>p. if p = ''./sessions'' then ''/srv/sessions''
                       else if take 11 p = ''./sessions/'' then ''/srv/sessions/'' @ drop 11 p
                       else p),
          dirs = (\<lambda>p. if p = ''/srv/sessions''
                       then Some [(''session-1'', [''EISDIR'']), (''session-2'', [''EISDIR''])]
                       else if p = ''/srv/sessions/session-1'' then Some [(''lock'', [''EBUSY''])]
                       else if p = ''/srv/sessions/session-2'' then Some []
                       else None)\<rparr>"

definition client0 :: client where
  "client0 = newClientObject (clientOptionsOf cfg0 [])"

definition world0 :: world where
  \<comment> \<open>the state of a process that has started no session\<close>
  "world0 = \<lparr>sessions = (\<lambda>i. None), clients = (\<lambda>h. client0), next_handle = 0, fs = fs0,
         trace = [], webhooks = [], tasks = [], timers = 0\<rparr>"

definition world1 :: world where
  \<comment> \<open>the state after tenant 1 has been started\<close>
  "world1 = snd (setupSession cfg0 drv0 ''1'' world0)"

definition drvUnpaired :: driver where
  \<comment> \<open>a driver whose browser never starts: no page, no state\<close>
  "drvUnpaired =
     drv0\<lparr>initialize := (\<lambda>h. Rejected (JsError ''Failed to launch the browser process'' None)),
          materialises := (\<lambda>h. False),
          getState := (\<lambda>h. Pending)\<rparr>"

definition drvThrows :: driver where
  \<comment> \<open>a driver whose state query throws\<close>
  "drvThrows = drv0\<lparr>getState := (\<lambda>h. Rejected (JsError ''Protocol error'' None))\<rparr>"

definition drvHangs :: driver where
  \<comment> \<open>a driver whose state query never settles\<close>
  "drvHangs = drv0\<lparr>getState := (\<lambda>h. Pending)\<rparr>"

definition fsEscape :: filesys where
  \<comment> \<open>a credential root with a sibling directory that a tenant id reaches through \<^verbatim>\<open>..\<close>\<close>
  "fsEscape =
     \<lparr>canon = (\<lambda>p. if p = ''./sessions'' then ''/srv/sessions''
                  else if p = ''./sessions/session-x/../../sessions-old'' then ''/srv/sessions-old''
                  else p),
      dirs = (\<lambda>p. if p = ''/srv/sessions'' then Some []
                  else if p = ''/srv/sessions-old'' then Some [(''creds'', [])]
                  else None)\<rparr>"

definition world1p :: world where
  \<comment> \<open>tenant 1 started and validated: its page and browser are there\<close>
  "world1p = snd (validateSession drv0 ''1'' world1)"

definition drvClosed :: driver where
  \<comment> \<open>a driver whose browser tab has been closed\<close>
  "drvClosed = drv0\<lparr>pageIsClosed := (\<lambda>h. Inr True)\<rparr>"

definition world2 :: world where
  \<comment> \<open>tenants 1 and 2 started\<close>
  "world2 = snd (setupSession cfg0 drv0 ''2'' world1)"

definition drvMixed :: driver where
  \<comment> \<open>a driver whose first client is connected and whose other clients are not paired\<close>
  "drvMixed = drv0\<lparr>getState := (\<lambda>h. if h = 0 then Resolved (Some ''CONNECTED'')
                                      else Resolved (Some ''UNPAIRED''))\<rparr>"

definition occur :: "handle \<Rightarrow> (config \<times> event) list \<Rightarrow> world \<Rightarrow> world" where
  \<comment> \<open>a history of events on a client, each with the configuration in force when it occurs\<close>
  "occur h es w = foldl (\<lambda>w' ce. emit (fst ce) h (snd ce) w') w es"

definition qrEvent :: event where
  "qrEvent = \<lparr>evName = ''qr'', evData = ''2@pairing-code'', hasMedia = False, mediaSize = None,
              downloadMedia = Pending, getChat = Pending\<rparr>"

definition messageEvent :: event where
  "messageEvent = \<lparr>evName = ''message'', evData = ''hello'', hasMedia = False,
                   mediaSize = None, downloadMedia = Pending, getChat = Resolved ()\<rparr>"

definition cfgDenied :: config where
  \<comment> \<open>the deny-list holds \<^verbatim>\<open>message\<close> and \<^verbatim>\<open>qr\<close>\<close>
  "cfgDenied = cfg0\<lparr>disabledCallbacks := [''message'', ''qr'']\<rparr>"

definition worldDenied :: world where
  \<comment> \<open>tenant 1 started under that deny-list\<close>
  "worldDenied = snd (setupSession cfgDenied drv0 ''1'' world0)"

definition cfgR :: config where
  \<comment> \<open>crash recovery enabled\<close>
  "cfgR = cfg0\<lparr>recoverSessions := True\<rparr>"

definition crashReady :: world where
  \<comment> \<open>tenant 1 started with crash recovery; its page is there and the one-shot listeners
      are attached\<close>
  "crashReady = resume cfgR drv0 (AwaitPage ''1'' 0) (snd (setupSession cfgR drv0 ''1'' world0))"

definition crashInterleaved :: world where
  \<comment> \<open>the page emits \<^verbatim>\<open>error\<close> and, while \<^verbatim>\<open>client.destroy()\<close> is pending,
      \<^verbatim>\<open>close\<close>; then both restarts go on\<close>
  "crashInterleaved =
     resume cfgR drv0 (AwaitDestroy ''1'' 0)
       (resume cfgR drv0 (AwaitDestroy ''1'' 0)
          (pageEmit 0 ''close'' (pageEmit 0 ''error'' crashReady)))"

definition crashSequential :: world where
  \<comment> \<open>the page emits \<^verbatim>\<open>error\<close>, the restart runs to its end, and then the page emits
      \<^verbatim>\<open>close\<close>\<close>
  "crashSequential =
     resume cfgR drv0 (AwaitDestroy ''1'' 0)
       (pageEmit 0 ''close''
          (resume cfgR drv0 (AwaitDestroy ''1'' 0) (pageEmit 0 ''error'' crashReady)))"

section \<open>Properties\<close>

subsection \<open>The Event Gate\<close>

text \<open>
  Claim C9 says that the gate's check always resolves and reports enabled exactly for the
  event names outside the deny-list. The promise is resolved exactly for those names; for
  a name in the deny-list it is never settled, so the check does not always resolve.
  First the failing input: with \<^verbatim>\<open>qr\<close> in the deny-list the check of \<^verbatim>\<open>qr\<close>
  stays pending.
\<close>

theorem checkIfEventisEnabled_pending_counterexample:
  "checkIfEventisEnabled (cfg0\<lparr>disabledCallbacks := [''qr'']\<rparr>) ''qr'' = Pending
   \<and> checkIfEventisEnabled (cfg0\<lparr>disabledCallbacks := [''qr'']\<rparr>) ''qr'' \<noteq> Resolved ()"
  by (simp add: checkIfEventisEnabled_def)

text \<open>
  Claim C9, amended: the check resolves exactly when the event name is not in the
  deny-list, stays pending exactly when it is, and never rejects.
\<close>

theorem checkIfEventisEnabled_resolves_iff_enabled:
  "(checkIfEventisEnabled cfg event = Resolved ()) = (event \<notin> set (disabledCallbacks cfg))
   \<and> (checkIfEventisEnabled cfg event = Pending) = (event \<in> set (disabledCallbacks cfg))
   \<and> (\<forall>e. checkIfEventisEnabled cfg event \<noteq> Rejected e)"
  by (simp add: checkIfEventisEnabled_def)

theorem checkIfEventisEnabled_resolves_iff_enabled_witness:
  "checkIfEventisEnabled (cfg0\<lparr>disabledCallbacks := [''qr'', ''call'']\<rparr>) ''message'' = Resolved ()
   \<and> checkIfEventisEnabled (cfg0\<lparr>disabledCallbacks := [''qr'', ''call'']\<rparr>) ''call'' = Pending"
  using checkIfEventisEnabled_resolves_iff_enabled
          [of "cfg0\<lparr>disabledCallbacks := [''qr'', ''call'']\<rparr>" "''message''"]
        checkIfEventisEnabled_resolves_iff_enabled
          [of "cfg0\<lparr>disabledCallbacks := [''qr'', ''call'']\<rparr>" "''call''"]
  by simp

subsection \<open>Starting a session\<close>

lemma world0_simps:
  "sessions world0 = (\<lambda>i. None)" "next_handle world0 = 0" "fs world0 = fs0" "trace world0 = []"
  "tasks world0 = []" "webhooks world0 = []" "clients world0 = (\<lambda>h. client0)" "timers world0 = 0"
  by (simp_all add: world0_def)

lemma drv0_simps:
  "newLocalAuth drv0 ''1'' = None" "newLocalAuth drv0 ''2'' = None"
  "newClient drv0 opts = None" "materialises drv0 h" "pageIsClosed drv0 h = Inr False"
  "getState drv0 h = Resolved (Some ''CONNECTED'')" "logout drv0 h = Resolved ()"
  "destroy drv0 h = Resolved ()" "\<not> browserIsConnected drv0 h k"
  by (simp_all add: drv0_def idChar_def)

lemma world1_sessions: "sessions world1 = (\<lambda>i. if i = ''1'' then Some 0 else None)"
  by (auto simp add: world1_def setupSession_def world0_simps drv0_simps Let_def
        initializeEvents_def updClient_def record_call_def)

lemma world1_page: "pupPage (clients world1 0) = None"
  by (simp add: world1_def setupSession_def world0_simps drv0_simps Let_def initializeEvents_def
        updClient_def record_call_def newClientObject_def)

text \<open>
  Claim C3: a tenant id has at most one Registry entry (the Registry is a map). A start
  for an id that has an entry returns the failure result and leaves the whole state as it
  was, so no client is created and the entry keeps its handle; in particular a second
  start right after a successful one is rejected so.
\<close>

theorem setupSession_second_start_rejected:
  "(sessions w sessionId \<noteq> None \<longrightarrow>
      setupSession cfg drv sessionId w
        = (\<lparr>success = False, message = ''Session already exists for: '' @ sessionId,
            state = None\<rparr>, w))
   \<and> (success (fst (setupSession cfg drv sessionId w)) \<longrightarrow>
        sessions (snd (setupSession cfg drv sessionId w)) sessionId = Some (next_handle w)
        \<and> setupSession cfg drv sessionId (snd (setupSession cfg drv sessionId w))
            = (\<lparr>success = False, message = ''Session already exists for: '' @ sessionId,
                state = None\<rparr>, snd (setupSession cfg drv sessionId w)))"
  by (auto simp add: setupSession_def failure_def Let_def split: option.splits)

theorem setupSession_second_start_rejected_witness:
  "success (fst (setupSession cfg0 drv0 ''1'' world0))
   \<and> sessions world1 ''1'' = Some 0
   \<and> setupSession cfg0 drv0 ''1'' world1
       = (\<lparr>success = False, message = ''Session already exists for: 1'', state = None\<rparr>, world1)
   \<and> setupSession cfg0 drvUnpaired ''1'' world1
       = (\<lparr>success = False, message = ''Session already exists for: 1'', state = None\<rparr>, world1)"
proof -
  have s: "success (fst (setupSession cfg0 drv0 ''1'' world0))"
    by (simp add: setupSession_def world0_simps drv0_simps Let_def)
  have r: "sessions world1 ''1'' \<noteq> None"
    by (simp add: world1_sessions)
  show ?thesis
    using s r setupSession_second_start_rejected [of world0 "''1''" cfg0 drv0]
      setupSession_second_start_rejected [of world1 "''1''" cfg0 drvUnpaired]
    by (simp add: world1_def world0_simps)
qed

text \<open>
  Claim C10 says that a start for an id without a Registry entry always returns success
  with the state \<^verbatim>\<open>CONNECTED\<close>. The body of \<^verbatim>\<open>setupSession\<close> is in a
  \<^verbatim>\<open>try\<close>: when a constructor of the driver throws, the \<^verbatim>\<open>catch\<close> returns a
  failure result. The failing input is the id \<^verbatim>\<open>bad id!\<close>, which the auth strategy
  refuses.
\<close>

theorem setupSession_bad_id_counterexample:
  "sessions world0 ''bad id!'' = None
   \<and> setupSession cfg0 drv0 ''bad id!'' world0
       = (\<lparr>success = False,
           message = ''Invalid clientId. Only alphanumeric characters, underscores and hyphens are allowed.'',
           state = None\<rparr>, world0)"
  by (simp add: setupSession_def world0_simps drv0_def idChar_def failure_def errorMessage_def)

text \<open>
  Claim C10, amended: for an id without a Registry entry, when the constructors of the
  auth strategy and of the client do not throw, the start returns success with the state
  \<^verbatim>\<open>CONNECTED\<close> and registers the new client, whatever the driver does afterwards
  (its initialisation, its page and its connection state are not consulted); when a
  constructor throws, the start returns the failure result of the error, with no state,
  and changes nothing.
\<close>

theorem setupSession_reports_connected:
  assumes "sessions w sessionId = None"
  shows "(newLocalAuth drv sessionId = None \<and> newClient drv (clientOptionsOf cfg sessionId) = None
            \<longrightarrow> fst (setupSession cfg drv sessionId w)
                  = \<lparr>success = True, message = ''Session initiated successfully'',
                     state = Some ''CONNECTED''\<rparr>
                \<and> sessions (snd (setupSession cfg drv sessionId w)) sessionId
                    = Some (next_handle w))
         \<and> (\<forall>e. newLocalAuth drv sessionId = Some e
                  \<or> (newLocalAuth drv sessionId = None
                      \<and> newClient drv (clientOptionsOf cfg sessionId) = Some e)
               \<longrightarrow> setupSession cfg drv sessionId w = (failure e, w))"
  using assms by (auto simp add: setupSession_def Let_def)

theorem setupSession_reports_connected_witness:
  "fst (setupSession cfg0 drvUnpaired ''1'' world0)
     = \<lparr>success = True, message = ''Session initiated successfully'', state = Some ''CONNECTED''\<rparr>
   \<and> fst (validateSession drvUnpaired ''1'' (snd (setupSession cfg0 drvUnpaired ''1'' world0)))
     = Resolved \<lparr>success = False, message = ''Timeout waiting for nested object'', state = None\<rparr>
   \<and> setupSession cfg0 (drv0\<lparr>newLocalAuth := (\<lambda>i. Some NonError)\<rparr>) ''1'' world0
     = (\<lparr>success = False, message = ''Unknown error'', state = None\<rparr>, world0)"
proof -
  have a: "sessions world0 ''1'' = None"
    by (simp add: world0_simps)
  have b: "newLocalAuth drvUnpaired ''1'' = None"
    "newClient drvUnpaired (clientOptionsOf cfg0 ''1'') = None" "\<not> materialises drvUnpaired 0"
    by (simp_all add: drvUnpaired_def drv0_simps)
  have p: "pupPage (clients (snd (setupSession cfg0 drvUnpaired ''1'' world0)) 0) = None"
    by (simp add: setupSession_def a b Let_def world0_simps initializeEvents_def updClient_def
          record_call_def newClientObject_def)
  show ?thesis
    using setupSession_reports_connected [OF a, of drvUnpaired cfg0]
      setupSession_reports_connected [OF a, of "drv0\<lparr>newLocalAuth := (\<lambda>i. Some NonError)\<rparr>" cfg0]
      b p
    by (simp add: world0_simps validateSession_def waitForNestedObject_def failure_def
          errorMessage_def)
qed

subsection \<open>Validating a session\<close>

text \<open>
  Claim C4: for an id without a Registry entry \<^verbatim>\<open>validateSession\<close> returns exactly
  the \<^verbatim>\<open>session_not_found\<close> failure. It never throws, whatever the driver does. A
  timeout of the wait for the page, a closed page and an exception thrown by the driver
  each end in a failure result, whatever the rest of the driver does. The result is a
  success only if the page is there and open and the driver reports \<^verbatim>\<open>CONNECTED\<close>.
  The one case in which \<^verbatim>\<open>validateSession\<close> returns nothing is that the page is
  open and the driver's state query never settles.
\<close>

theorem validateSession_never_throws:
  "(sessions w sessionId = None \<longrightarrow>
      validateSession drv sessionId w
        = (Resolved \<lparr>success = False, message = ''session_not_found'', state = None\<rparr>, w))
   \<and> (\<forall>e. fst (validateSession drv sessionId w) \<noteq> Rejected e)
   \<and> (\<forall>h. sessions w sessionId = Some h
          \<and> ((pupPage (clients w h) = None \<and> \<not> materialises drv h)
             \<or> pageIsClosed drv h = Inr True
             \<or> (\<exists>e. pageIsClosed drv h = Inl e)
             \<or> (\<exists>e. getState drv h = Rejected e))
        \<longrightarrow> (\<exists>r. fst (validateSession drv sessionId w) = Resolved r \<and> \<not> success r))
   \<and> (\<forall>r. fst (validateSession drv sessionId w) = Resolved r \<and> success r \<longrightarrow>
        (\<exists>h. sessions w sessionId = Some h
            \<and> (pupPage (clients w h) \<noteq> None \<or> materialises drv h)
            \<and> pageIsClosed drv h = Inr False
            \<and> getState drv h = Resolved (Some ''CONNECTED'')))
   \<and> (fst (validateSession drv sessionId w) = Pending)
       = (\<exists>h. sessions w sessionId = Some h
            \<and> (pupPage (clients w h) \<noteq> None \<or> materialises drv h)
            \<and> pageIsClosed drv h = Inr False
            \<and> getState drv h = Pending)"
proof (cases "sessions w sessionId")
  case None
  then show ?thesis by (simp add: validateSession_def)
next
  case (Some h)
  show ?thesis
  proof (cases "pupPage (clients w h) = None \<and> \<not> materialises drv h")
    case True
    with Some show ?thesis
      by (simp add: validateSession_def waitForNestedObject_def failure_def)
  next
    case False
    then have p: "pupPage (clients (snd (waitForNestedObject drv h w)) h) \<noteq> None"
      "fst (waitForNestedObject drv h w) = Resolved ()"
      by (auto simp add: waitForNestedObject_def updClient_def)
    obtain wp where wp: "waitForNestedObject drv h w = (Resolved (), wp)"
      "pupPage (clients wp h) \<noteq> None"
      using p by (cases "waitForNestedObject drv h w") auto
    show ?thesis
    proof (cases "pageIsClosed drv h")
      case (Inl e)
      with Some False wp show ?thesis
        by (auto simp add: validateSession_def failure_def)
    next
      case (Inr c)
      show ?thesis
      proof (cases c)
        case True
        with Some False wp Inr show ?thesis
          by (auto simp add: validateSession_def)
      next
        case closed: False
        show ?thesis
        proof (cases "getState drv h")
          case (Resolved st)
          with Some False wp Inr closed show ?thesis
            by (auto simp add: validateSession_def)
        next
          case (Rejected e)
          with Some False wp Inr closed show ?thesis
            by (auto simp add: validateSession_def failure_def)
        next
          case Pending
          with Some False wp Inr closed show ?thesis
            by (auto simp add: validateSession_def)
        qed
      qed
    qed
  qed
qed

theorem validateSession_never_throws_witness:
  "validateSession drv0 ''9'' world1
     = (Resolved \<lparr>success = False, message = ''session_not_found'', state = None\<rparr>, world1)
   \<and> getState drvUnpaired 0 = Pending
   \<and> fst (validateSession drvUnpaired ''1'' world1)
     = Resolved \<lparr>success = False, message = ''Timeout waiting for nested object'', state = None\<rparr>
   \<and> fst (validateSession (drv0\<lparr>pageIsClosed := (\<lambda>h. Inr True)\<rparr>) ''1'' world1)
     = Resolved \<lparr>success = False, message = ''browser tab closed'', state = None\<rparr>
   \<and> fst (validateSession drvThrows ''1'' world1)
     = Resolved \<lparr>success = False, message = ''Protocol error'', state = None\<rparr>
   \<and> fst (validateSession (drv0\<lparr>pageIsClosed := (\<lambda>h. Inl NonError)\<rparr>) ''1'' world1)
     = Resolved \<lparr>success = False, message = ''Unknown error'', state = None\<rparr>
   \<and> fst (validateSession drv0 ''1'' world1)
     = Resolved \<lparr>success = True, message = ''session_connected'', state = Some ''CONNECTED''\<rparr>
   \<and> getState drv0 0 = Resolved (Some ''CONNECTED'')
   \<and> fst (validateSession drvHangs ''1'' world1) = Pending"
proof -
  have n: "sessions world1 ''9'' = None" "sessions world1 ''1'' = Some 0"
    by (simp_all add: world1_sessions)
  have u: "pupPage (clients world1 0) = None \<and> \<not> materialises drvUnpaired 0"
    "getState drvUnpaired 0 = Pending"
    by (simp_all add: world1_page drvUnpaired_def)
  have g: "materialises drvHangs 0" "pageIsClosed drvHangs 0 = Inr False"
    "getState drvHangs 0 = Pending"
    by (simp_all add: drvHangs_def drv0_simps)
  have c: "fst (validateSession drv0 ''1'' world1)
             = Resolved \<lparr>success = True, message = ''session_connected'', state = Some ''CONNECTED''\<rparr>"
    by (simp add: validateSession_def waitForNestedObject_def n world1_page drv0_simps updClient_def)
  have hang: "fst (validateSession drvHangs ''1'' world1) = Pending"
    using validateSession_never_throws [of world1 "''1''" drvHangs] n g by simp
  show ?thesis
    using n u c hang validateSession_never_throws [of world1 "''9''" drv0]
      validateSession_never_throws [of world1 "''1''" drvUnpaired]
      validateSession_never_throws [of world1 "''1''" drvThrows]
      validateSession_never_throws [of world1 "''1''" drv0]
    by (simp add: validateSession_def waitForNestedObject_def world1_page drv0_simps updClient_def
          drvUnpaired_def drvThrows_def failure_def errorMessage_def)
qed

subsection \<open>Deleting a credential directory\<close>

text \<open>
  Claim C6: \<^verbatim>\<open>deleteSessionFolder\<close> resolves the tenant's directory and the
  credential root to real paths, and whenever the resolved directory does not start with
  the resolved root followed by the path separator, it throws the traversal error with
  the file system (and the rest of the state) untouched: no file is unlinked and no
  directory removed.
\<close>

theorem deleteSessionFolder_rejects_traversal:
  assumes "realpath (fs w) (targetDirPath cfg sessionId) = Inr resolvedTargetDirPath"
    and "realpath (fs w) (sessionFolderPath cfg) = Inr resolvedSessionPath"
    and "\<not> startsWith resolvedTargetDirPath (resolvedSessionPath @ path_sep)"
  shows "deleteSessionFolder cfg sessionId w = (Rejected traversalError, w)"
  using assms by (simp add: deleteSessionFolder_def Let_def)

theorem deleteSessionFolder_rejects_traversal_witness:
  "deleteSessionFolder cfg0 ''x/../../sessions-old'' (world0\<lparr>fs := fsEscape\<rparr>)
     = (Rejected (JsError ''Invalid path: Directory traversal detected'' None),
        world0\<lparr>fs := fsEscape\<rparr>)"
proof -
  have a: "realpath (fs (world0\<lparr>fs := fsEscape\<rparr>)) (targetDirPath cfg0 ''x/../../sessions-old'')
             = Inr ''/srv/sessions-old''"
    by (simp add: realpath_def targetDirPath_def cfg0_def fsEscape_def path_sep_def)
  have b: "realpath (fs (world0\<lparr>fs := fsEscape\<rparr>)) (sessionFolderPath cfg0) = Inr ''/srv/sessions''"
    by (simp add: realpath_def cfg0_def fsEscape_def)
  have c: "\<not> startsWith ''/srv/sessions-old'' (''/srv/sessions'' @ path_sep)"
    by (simp add: startsWith_def path_sep_def)
  show ?thesis
    using deleteSessionFolder_rejects_traversal [OF a b c] by (simp add: traversalError_def)
qed

subsection \<open>What the deletion of a credential directory leaves alone\<close>

lemma unlinkAt_canon: "canon (snd (unlinkAt f rp name)) = canon f"
  by (simp add: unlinkAt_def split: option.splits prod.splits)

lemma unlinkAt_dirs_other: "p \<noteq> rp \<Longrightarrow> dirs (snd (unlinkAt f rp name)) p = dirs f p"
  by (simp add: unlinkAt_def split: option.splits prod.splits)

lemma unlinkAt_none: "(dirs (snd (unlinkAt f rp name)) p = None) = (dirs f p = None)"
  by (auto simp add: unlinkAt_def split: option.splits prod.splits)

lemma unlinkAt_cong:
  "dirs f2 rp = dirs f rp \<Longrightarrow>
     fst (unlinkAt f2 rp name) = fst (unlinkAt f rp name)
     \<and> dirs (snd (unlinkAt f2 rp name)) rp = dirs (snd (unlinkAt f rp name)) rp"
  by (simp add: unlinkAt_def split: option.splits prod.splits)

lemma unlinkFiles_frame:
  "unlinkFiles rp files w = (r, w') \<Longrightarrow>
     sessions w' = sessions w \<and> clients w' = clients w \<and> trace w' = trace w
     \<and> next_handle w' = next_handle w \<and> webhooks w' = webhooks w \<and> tasks w' = tasks w
     \<and> canon (fs w') = canon (fs w) \<and> (\<forall>p. p \<noteq> rp \<longrightarrow> dirs (fs w') p = dirs (fs w) p)
     \<and> (\<forall>p. (dirs (fs w') p = None) = (dirs (fs w) p = None))"
proof (induction files arbitrary: w r w')
  case Nil
  then show ?case by simp
next
  case (Cons fl files)
  obtain r1 f1 where u1: "unlinkAt (fs w) rp fl = (r1, f1)"
    by (cases "unlinkAt (fs w) rp fl")
  obtain r2 f2 where u2: "unlinkAt f1 rp fl = (r2, f2)"
    by (cases "unlinkAt f1 rp fl")
  have c1: "canon f1 = canon (fs w)" "\<And>p. p \<noteq> rp \<Longrightarrow> dirs f1 p = dirs (fs w) p"
    "\<And>p. (dirs f1 p = None) = (dirs (fs w) p = None)"
    using u1 unlinkAt_canon [of "fs w" rp fl] unlinkAt_dirs_other [of _ rp "fs w" fl]
      unlinkAt_none [of "fs w" rp fl]
    by simp_all
  have c2: "canon f2 = canon (fs w)" "\<And>p. p \<noteq> rp \<Longrightarrow> dirs f2 p = dirs (fs w) p"
    "\<And>p. (dirs f2 p = None) = (dirs (fs w) p = None)"
    using u2 c1 unlinkAt_canon [of f1 rp fl] unlinkAt_dirs_other [of _ rp f1 fl]
      unlinkAt_none [of f1 rp fl]
    by simp_all
  show ?case
  proof (cases r1)
    case None
    with Cons.prems u1 have "unlinkFiles rp files (w\<lparr>fs := f1\<rparr>) = (r, w')"
      by simp
    from Cons.IH [OF this] c1 show ?thesis by simp
  next
    case (Some e)
    show ?thesis
    proof (cases "errCode e = Some ''EPERM'' \<or> errCode e = Some ''EBUSY''")
      case False
      with Cons.prems u1 Some have "w' = w\<lparr>fs := f1\<rparr>" by auto
      with c1 show ?thesis by simp
    next
      case True
      show ?thesis
      proof (cases r2)
        case None
        with Cons.prems u1 u2 Some True
        have "unlinkFiles rp files (w\<lparr>fs := f2, timers := timers w + 1000\<rparr>) = (r, w')"
          by auto
        from Cons.IH [OF this] c2 show ?thesis by simp
      next
        case (Some e2)
        with Cons.prems u1 u2 \<open>r1 = Some e\<close> True
        have "w' = w\<lparr>fs := f2, timers := timers w + 1000\<rparr>" by auto
        with c2 show ?thesis by simp
      qed
    qed
  qed
qed

text \<open>The outcome of the loop depends on the directory it works in only.\<close>

lemma unlinkFiles_cong:
  "dirs (fs w2) rp = dirs (fs w) rp \<Longrightarrow>
     fst (unlinkFiles rp files w2) = fst (unlinkFiles rp files w)
     \<and> dirs (fs (snd (unlinkFiles rp files w2))) rp = dirs (fs (snd (unlinkFiles rp files w))) rp"
proof (induction files arbitrary: w w2)
  case Nil
  then show ?case by simp
next
  case (Cons fl files)
  obtain r1 f1 where u1: "unlinkAt (fs w) rp fl = (r1, f1)"
    by (cases "unlinkAt (fs w) rp fl")
  obtain r1' f1' where u1': "unlinkAt (fs w2) rp fl = (r1', f1')"
    by (cases "unlinkAt (fs w2) rp fl")
  have a: "r1' = r1" "dirs f1' rp = dirs f1 rp"
    using unlinkAt_cong [OF Cons.prems, of fl] u1 u1' by simp_all
  obtain r2 f2 where u2: "unlinkAt f1 rp fl = (r2, f2)"
    by (cases "unlinkAt f1 rp fl")
  obtain r2' f2' where u2': "unlinkAt f1' rp fl = (r2', f2')"
    by (cases "unlinkAt f1' rp fl")
  have b: "r2' = r2" "dirs f2' rp = dirs f2 rp"
    using unlinkAt_cong [OF a(2), of fl] u2 u2' by simp_all
  show ?case
  proof (cases r1)
    case None
    have "dirs (fs (w2\<lparr>fs := f1'\<rparr>)) rp = dirs (fs (w\<lparr>fs := f1\<rparr>)) rp"
      using a by simp
    from Cons.IH [OF this] None a u1 u1' show ?thesis by simp
  next
    case (Some e)
    show ?thesis
    proof (cases "errCode e = Some ''EPERM'' \<or> errCode e = Some ''EBUSY''")
      case False
      with Some a u1 u1' show ?thesis by auto
    next
      case True
      show ?thesis
      proof (cases r2)
        case None
        have "dirs (fs (w2\<lparr>fs := f2', timers := timers w2 + 1000\<rparr>)) rp
                = dirs (fs (w\<lparr>fs := f2, timers := timers w + 1000\<rparr>)) rp"
          using b by simp
        from Cons.IH [OF this] None Some True a b u1 u1' u2 u2' show ?thesis by auto
      next
        case e2: (Some e2)
        with Some True a b u1 u1' u2 u2' show ?thesis by auto
      qed
    qed
  qed
qed

lemma rmdirAt_frame:
  "rmdirAt f rp = (r, f') \<Longrightarrow>
     canon f' = canon f
     \<and> (\<forall>p. p \<noteq> rp \<and> p \<noteq> dirname rp \<longrightarrow> dirs f' p = dirs f p)
     \<and> (\<forall>p. p \<noteq> rp \<longrightarrow> (dirs f' p = None) = (dirs f p = None))
     \<and> (\<forall>p. dirs f p = None \<longrightarrow> dirs f' p = None)
     \<and> (r = None \<longrightarrow> dirs f' rp = None)"
  by (auto simp add: rmdirAt_def split: option.splits list.splits if_splits)

lemma rmdirAt_cong: "dirs f2 rp = dirs f rp \<Longrightarrow> fst (rmdirAt f2 rp) = fst (rmdirAt f rp)"
  by (simp add: rmdirAt_def split: option.splits list.splits)

lemma startsWith_longer: "startsWith s (p @ q) \<Longrightarrow> q \<noteq> [] \<Longrightarrow> s \<noteq> p"
  by (auto simp add: startsWith_def)

lemma deleteSessionFolder_frame:
  assumes "deleteSessionFolder cfg sessionId w = (r, w')"
  shows "sessions w' = sessions w \<and> clients w' = clients w \<and> trace w' = trace w
     \<and> next_handle w' = next_handle w \<and> webhooks w' = webhooks w \<and> tasks w' = tasks w
     \<and> canon (fs w') = canon (fs w)
     \<and> (\<forall>p. p \<noteq> canon (fs w) (targetDirPath cfg sessionId)
             \<and> p \<noteq> dirname (canon (fs w) (targetDirPath cfg sessionId))
           \<longrightarrow> dirs (fs w') p = dirs (fs w) p)
     \<and> (\<forall>p. p \<noteq> canon (fs w) (targetDirPath cfg sessionId)
           \<longrightarrow> (dirs (fs w') p = None) = (dirs (fs w) p = None))
     \<and> (\<forall>p. dirs (fs w) p = None \<longrightarrow> dirs (fs w') p = None)
     \<and> ((dirs (fs w') (canon (fs w) (sessionFolderPath cfg)) = None)
          = (dirs (fs w) (canon (fs w) (sessionFolderPath cfg)) = None))
     \<and> (r = Resolved () \<longrightarrow> dirs (fs w') (canon (fs w) (targetDirPath cfg sessionId)) = None)"
proof (cases "realpath (fs w) (targetDirPath cfg sessionId)")
  case (Inl e)
  with assms show ?thesis by (auto simp add: deleteSessionFolder_def)
next
  case target: (Inr rt)
  then have rt: "rt = canon (fs w) (targetDirPath cfg sessionId)"
    by (simp add: realpath_def split: option.splits)
  show ?thesis
  proof (cases "realpath (fs w) (sessionFolderPath cfg)")
    case (Inl e)
    with assms target show ?thesis by (auto simp add: deleteSessionFolder_def)
  next
    case root: (Inr rr)
    then have rr: "rr = canon (fs w) (sessionFolderPath cfg)"
      by (simp add: realpath_def split: option.splits)
    show ?thesis
    proof (cases "startsWith rt (rr @ path_sep)")
      case False
      with assms target root show ?thesis by (auto simp add: deleteSessionFolder_def)
    next
      case True
      then have ne: "rr \<noteq> rt"
        using startsWith_longer [of rt rr path_sep] by (auto simp add: path_sep_def)
      show ?thesis
      proof (cases "readdirAt (fs w) rt")
        case (Inl e)
        with assms target root True show ?thesis by (auto simp add: deleteSessionFolder_def)
      next
        case listing: (Inr files)
        obtain r1 wu where u: "unlinkFiles rt files w = (r1, wu)"
          by (cases "unlinkFiles rt files w")
        note fr = unlinkFiles_frame [OF u]
        obtain r2 f2 where rm: "rmdirAt (fs wu) rt = (r2, f2)"
          by (cases "rmdirAt (fs wu) rt")
        note fr2 = rmdirAt_frame [OF rm]
        show ?thesis
        proof (cases r1)
          case (Some e)
          with assms target root True listing u have "w' = wu \<and> r = Rejected e"
            by (auto simp add: deleteSessionFolder_def)
          with fr rt show ?thesis by simp
        next
          case None
          with assms target root True listing u rm
          have "w' = wu\<lparr>fs := f2\<rparr> \<and> (r = Resolved () \<longrightarrow> r2 = None)"
            by (auto simp add: deleteSessionFolder_def split: option.splits)
          with fr fr2 rt rr ne show ?thesis by simp
        qed
      qed
    qed
  qed
qed

text \<open>
  Whether the deletion of a tenant's directory succeeds depends on that directory, on the
  existence of the credential root, and on how paths resolve.
\<close>

lemma deleteSessionFolder_cong:
  assumes "canon (fs w2) = canon (fs w)"
    and "dirs (fs w2) (canon (fs w) (targetDirPath cfg sessionId))
           = dirs (fs w) (canon (fs w) (targetDirPath cfg sessionId))"
    and "(dirs (fs w2) (canon (fs w) (sessionFolderPath cfg)) = None)
           = (dirs (fs w) (canon (fs w) (sessionFolderPath cfg)) = None)"
  shows "fst (deleteSessionFolder cfg sessionId w2) = fst (deleteSessionFolder cfg sessionId w)"
proof -
  let ?D = "canon (fs w) (targetDirPath cfg sessionId)"
  let ?R = "canon (fs w) (sessionFolderPath cfg)"
  have t: "realpath (fs w2) (targetDirPath cfg sessionId) = realpath (fs w) (targetDirPath cfg sessionId)"
    using assms(1,2) by (simp add: realpath_def split: option.splits)
  have ro: "realpath (fs w2) (sessionFolderPath cfg) = realpath (fs w) (sessionFolderPath cfg)"
    using assms(1,3) by (auto simp add: realpath_def split: option.splits)
  show ?thesis
  proof (cases "realpath (fs w) (targetDirPath cfg sessionId)")
    case (Inl e)
    with t show ?thesis by (simp add: deleteSessionFolder_def)
  next
    case target: (Inr rt)
    then have rt: "rt = ?D"
      by (simp add: realpath_def split: option.splits)
    show ?thesis
    proof (cases "realpath (fs w) (sessionFolderPath cfg)")
      case (Inl e)
      with t ro target show ?thesis by (simp add: deleteSessionFolder_def)
    next
      case root: (Inr rr)
      show ?thesis
      proof (cases "startsWith rt (rr @ path_sep)")
        case False
        with t ro target root show ?thesis by (simp add: deleteSessionFolder_def)
      next
        case True
        have ls: "readdirAt (fs w2) rt = readdirAt (fs w) rt"
          using assms(2) rt by (simp add: readdirAt_def)
        show ?thesis
        proof (cases "readdirAt (fs w) rt")
          case (Inl e)
          with t ro target root True ls show ?thesis by (simp add: deleteSessionFolder_def)
        next
          case listing: (Inr files)
          have d: "dirs (fs w2) rt = dirs (fs w) rt"
            using assms(2) rt by simp
          note c = unlinkFiles_cong [OF d, of files]
          obtain r1 wu where u: "unlinkFiles rt files w = (r1, wu)"
            by (cases "unlinkFiles rt files w")
          obtain r1' wu' where u': "unlinkFiles rt files w2 = (r1', wu')"
            by (cases "unlinkFiles rt files w2")
          from c u u' have e: "r1' = r1" "dirs (fs wu') rt = dirs (fs wu) rt"
            by simp_all
          note rc = rmdirAt_cong [OF e(2)]
          obtain r2 f2 where rm: "rmdirAt (fs wu) rt = (r2, f2)"
            by (cases "rmdirAt (fs wu) rt")
          obtain r2' f2' where rm': "rmdirAt (fs wu') rt = (r2', f2')"
            by (cases "rmdirAt (fs wu') rt")
          from rc rm rm' have "r2' = r2" by simp
          with t ro target root True ls listing u u' e rm rm' show ?thesis
            by (cases r1; cases r2) (simp_all add: deleteSessionFolder_def)
        qed
      qed
    qed
  qed
qed

subsection \<open>Terminating a session\<close>

lemma removeAllListeners_frame:
  "sessions (removeAllListeners h s w) = sessions w"
  "fs (removeAllListeners h s w) = fs w"
  "trace (removeAllListeners h s w) = trace w"
  "(pupPage (clients (removeAllListeners h s w) h') = None) = (pupPage (clients w h') = None)"
  "pupBrowser (clients (removeAllListeners h s w) h') = pupBrowser (clients w h')"
  by (simp_all add: removeAllListeners_def updClient_def)

lemma signedOut_frame:
  "sessions (snd (signedOut drv h v sessionId w)) = sessions w"
  "fs (snd (signedOut drv h v sessionId w)) = fs w"
  "trace (snd (signedOut drv h v sessionId w))
     = trace w @ [DeleteSession sessionId]
         @ (if success v then [Logout h]
            else if message v = ''session_not_connected'' then [Destroy h] else [])"
  by (simp_all add: signedOut_def signOut_def removeAllListeners_frame record_call_def)

lemma afterSignOut_frame:
  "sessions (afterSignOut drv h v sessionId w) = sessions w"
  "fs (afterSignOut drv h v sessionId w) = fs w"
  "trace (afterSignOut drv h v sessionId w) = trace (snd (signedOut drv h v sessionId w))"
  by (simp_all add: afterSignOut_def Let_def signedOut_frame)

lemma deleteSession_absent:
  "sessions w sessionId = None \<Longrightarrow>
     deleteSession cfg drv sessionId v w = (Resolved (), record_call (DeleteSession sessionId) w)"
  by (simp add: deleteSession_def Let_def record_call_def)

lemma deleteSession_no_page:
  "sessions w sessionId = Some h \<Longrightarrow> pupPage (clients w h) = None \<Longrightarrow>
     deleteSession cfg drv sessionId v w = (Resolved (), record_call (DeleteSession sessionId) w)"
  by (simp add: deleteSession_def Let_def record_call_def)

lemma deleteSession_with_page:
  assumes "sessions w sessionId = Some h" and "pupPage (clients w h) = Some ls"
  shows "deleteSession cfg drv sessionId v w =
     (case fst (signedOut drv h v sessionId w) of
        Rejected e \<Rightarrow> (Rejected e, snd (signedOut drv h v sessionId w))
      | Pending \<Rightarrow> (Pending, snd (signedOut drv h v sessionId w))
      | Resolved u \<Rightarrow>
          (case deleteSessionFolder cfg sessionId (afterSignOut drv h v sessionId w) of
             (Resolved u', w4) \<Rightarrow> (Resolved (), w4\<lparr>sessions := (sessions w4)(sessionId := None)\<rparr>)
           | (Rejected e, w4) \<Rightarrow> (Rejected e, w4)
           | (Pending, w4) \<Rightarrow> (Pending, w4)))"
  using assms by (simp add: deleteSession_def Let_def record_call_def)

lemma deleteSession_trace:
  "trace (snd (deleteSession cfg drv sessionId v w))
     = trace w @ [DeleteSession sessionId]
         @ (case sessions w sessionId of
              None \<Rightarrow> []
            | Some h \<Rightarrow>
                if pupPage (clients w h) = None then []
                else if success v then [Logout h]
                else if message v = ''session_not_connected'' then [Destroy h]
                else [])"
proof (cases "sessions w sessionId")
  case None
  then show ?thesis by (simp add: deleteSession_absent record_call_def)
next
  case entry: (Some h)
  show ?thesis
  proof (cases "pupPage (clients w h)")
    case None
    with entry show ?thesis by (simp add: deleteSession_no_page record_call_def)
  next
    case (Some ls)
    note u = deleteSession_with_page [OF entry Some, of cfg drv v]
    note t = signedOut_frame(3) [of drv h v sessionId w]
    show ?thesis
    proof (cases "fst (signedOut drv h v sessionId w)")
      case (Resolved x)
      obtain r4 w4
        where d: "deleteSessionFolder cfg sessionId (afterSignOut drv h v sessionId w) = (r4, w4)"
        by (cases "deleteSessionFolder cfg sessionId (afterSignOut drv h v sessionId w)")
      from deleteSessionFolder_frame [OF d]
      have "trace w4 = trace (afterSignOut drv h v sessionId w)" by simp
      then have t4: "trace w4 = trace (snd (signedOut drv h v sessionId w))"
        by (simp only: afterSignOut_frame)
      have "trace (snd (deleteSession cfg drv sessionId v w)) = trace w4"
        unfolding u Resolved d by (cases r4) simp_all
      with t4 t Some entry show ?thesis by simp
    next
      case (Rejected e)
      have "trace (snd (deleteSession cfg drv sessionId v w))
              = trace (snd (signedOut drv h v sessionId w))"
        unfolding u Rejected by simp
      with t Some entry show ?thesis by simp
    next
      case Pending
      have "trace (snd (deleteSession cfg drv sessionId v w))
              = trace (snd (signedOut drv h v sessionId w))"
        unfolding u Pending by simp
      with t Some entry show ?thesis by simp
    qed
  qed
qed

lemma world1_fs: "fs world1 = fs0" "trace world1 = [Initialize 0]"
  by (simp_all add: world1_def setupSession_def world0_simps drv0_simps Let_def initializeEvents_def
        updClient_def record_call_def)

lemma world1p_simps:
  "sessions world1p = (\<lambda>i. if i = ''1'' then Some 0 else None)"
  "pupPage (clients world1p 0) = Some []" "pupBrowser (clients world1p 0)"
  "fs world1p = fs0" "trace world1p = [Initialize 0]"
  by (simp_all add: world1p_def validateSession_def waitForNestedObject_def world1_sessions world1_page
        drv0_simps updClient_def world1_fs)

lemma fs0_paths:
  "canon fs0 (targetDirPath cfg0 ''1'') = ''/srv/sessions/session-1''"
  "canon fs0 (targetDirPath cfg0 ''2'') = ''/srv/sessions/session-2''"
  "canon fs0 (sessionFolderPath cfg0) = ''/srv/sessions''"
  "dirs fs0 ''/srv/sessions/session-1'' = Some [(''lock'', [''EBUSY''])]"
  "dirs fs0 ''/srv/sessions/session-2'' = Some []"
  "dirs fs0 ''/srv/sessions''
     = Some [(''session-1'', [''EISDIR'']), (''session-2'', [''EISDIR''])]"
  by (simp_all add: fs0_def targetDirPath_def cfg0_def path_sep_def)

lemmas deleteSession_eval =
  deleteSession_def signedOut_def afterSignOut_def Let_def record_call_def
  removeAllListeners_def updClient_def signOut_def deleteSessionFolder_def realpath_def
  existsSync_def startsWith_def path_sep_def readdirAt_def unlinkAt_def rmdirAt_def errno_def
  errCode_def

text \<open>
  Claim C1 says that after \<^verbatim>\<open>deleteSession\<close> has returned without throwing, the
  credential directory is absent and the Registry has no entry, whatever the validation
  was. \<^verbatim>\<open>deleteSession\<close> returns at once, with a warning, when the client has no
  page yet. The failing input: tenant 1 is started on a driver whose browser never
  comes up, its validation is the timeout failure, and \<^verbatim>\<open>deleteSession\<close> returns
  with the directory and the Registry entry still there.
\<close>

theorem deleteSession_early_return_counterexample:
  "fst (validateSession drvUnpaired ''1'' world1)
     = Resolved \<lparr>success = False, message = ''Timeout waiting for nested object'', state = None\<rparr>
   \<and> fst (deleteSession cfg0 drvUnpaired ''1''
            \<lparr>success = False, message = ''Timeout waiting for nested object'', state = None\<rparr>
            (snd (validateSession drvUnpaired ''1'' world1))) = Resolved ()
   \<and> existsSync (fs (snd (deleteSession cfg0 drvUnpaired ''1''
            \<lparr>success = False, message = ''Timeout waiting for nested object'', state = None\<rparr>
            (snd (validateSession drvUnpaired ''1'' world1))))) (targetDirPath cfg0 ''1'')
   \<and> sessions (snd (deleteSession cfg0 drvUnpaired ''1''
            \<lparr>success = False, message = ''Timeout waiting for nested object'', state = None\<rparr>
            (snd (validateSession drvUnpaired ''1'' world1)))) ''1'' = Some 0"
proof -
  have v: "validateSession drvUnpaired ''1'' world1
             = (Resolved \<lparr>success = False, message = ''Timeout waiting for nested object'',
                  state = None\<rparr>, world1)"
    by (simp add: validateSession_def waitForNestedObject_def world1_sessions world1_page
          drvUnpaired_def failure_def errorMessage_def)
  show ?thesis
    unfolding v
    by (simp add: deleteSession_eval world1_sessions world1_page world1_fs fs0_paths)
qed

text \<open>
  Claim C1, amended: for a tenant id that has a Registry entry whose client has its page,
  after \<^verbatim>\<open>deleteSession\<close> has returned without throwing, the credential directory
  is absent and the Registry has no entry for the id, whatever the validation reported;
  for an id with no Registry entry, or whose client has no page yet,
  \<^verbatim>\<open>deleteSession\<close> returns without throwing and leaves the Registry and the file
  system as they were.
\<close>

theorem deleteSession_removes_directory_and_entry:
  "(\<forall>h. sessions w sessionId = Some h \<and> pupPage (clients w h) \<noteq> None
         \<and> fst (deleteSession cfg drv sessionId v w) = Resolved ()
       \<longrightarrow> \<not> existsSync (fs (snd (deleteSession cfg drv sessionId v w)))
               (targetDirPath cfg sessionId)
           \<and> sessions (snd (deleteSession cfg drv sessionId v w)) sessionId = None)
   \<and> (sessions w sessionId = None
        \<or> (\<exists>h. sessions w sessionId = Some h \<and> pupPage (clients w h) = None)
       \<longrightarrow> fst (deleteSession cfg drv sessionId v w) = Resolved ()
           \<and> sessions (snd (deleteSession cfg drv sessionId v w)) = sessions w
           \<and> fs (snd (deleteSession cfg drv sessionId v w)) = fs w)"
proof -
  have first: "\<not> existsSync (fs (snd (deleteSession cfg drv sessionId v w)))
                   (targetDirPath cfg sessionId)
           \<and> sessions (snd (deleteSession cfg drv sessionId v w)) sessionId = None"
    if a: "sessions w sessionId = Some h" and b: "pupPage (clients w h) = Some ls"
      and c: "fst (deleteSession cfg drv sessionId v w) = Resolved ()" for h ls
  proof -
    note u = deleteSession_with_page [OF a b, of cfg drv v]
    obtain r4 w4
      where d: "deleteSessionFolder cfg sessionId (afterSignOut drv h v sessionId w) = (r4, w4)"
      by (cases "deleteSessionFolder cfg sessionId (afterSignOut drv h v sessionId w)")
    note fr = deleteSessionFolder_frame [OF d]
    have r: "r4 = Resolved () \<and> snd (deleteSession cfg drv sessionId v w)
               = w4\<lparr>sessions := (sessions w4)(sessionId := None)\<rparr>"
      using c unfolding u d
      by (cases "fst (signedOut drv h v sessionId w)"; cases r4) simp_all
    with fr have "dirs (fs w4) (canon (fs w4) (targetDirPath cfg sessionId)) = None"
      by simp
    with r show ?thesis
      by (simp add: existsSync_def realpath_def)
  qed
  have second: "fst (deleteSession cfg drv sessionId v w) = Resolved ()
           \<and> sessions (snd (deleteSession cfg drv sessionId v w)) = sessions w
           \<and> fs (snd (deleteSession cfg drv sessionId v w)) = fs w"
    if "sessions w sessionId = None
        \<or> (\<exists>h. sessions w sessionId = Some h \<and> pupPage (clients w h) = None)"
    using that by (auto simp add: deleteSession_absent deleteSession_no_page record_call_def)
  from first second show ?thesis by blast
qed

theorem deleteSession_removes_directory_and_entry_witness:
  "sessions world1p ''1'' = Some 0
   \<and> existsSync (fs world1p) (targetDirPath cfg0 ''1'')
   \<and> fst (deleteSession cfg0 drv0 ''1''
            \<lparr>success = True, message = ''session_connected'', state = Some ''CONNECTED''\<rparr> world1p)
       = Resolved ()
   \<and> \<not> existsSync (fs (snd (deleteSession cfg0 drv0 ''1''
            \<lparr>success = True, message = ''session_connected'', state = Some ''CONNECTED''\<rparr> world1p)))
         (targetDirPath cfg0 ''1'')
   \<and> sessions (snd (deleteSession cfg0 drv0 ''1''
            \<lparr>success = True, message = ''session_connected'', state = Some ''CONNECTED''\<rparr> world1p))
         ''1'' = None
   \<and> fs (snd (deleteSession cfg0 drv0 ''2''
            \<lparr>success = False, message = ''session_not_found'', state = None\<rparr> world1p)) = fs world1p"
proof -
  have a: "sessions world1p ''1'' = Some 0" "pupPage (clients world1p 0) \<noteq> None"
    "sessions world1p ''2'' = None"
    by (simp_all add: world1p_simps)
  have e: "existsSync (fs world1p) (targetDirPath cfg0 ''1'')"
    by (simp add: existsSync_def realpath_def world1p_simps fs0_paths)
  have r: "fst (deleteSession cfg0 drv0 ''1''
            \<lparr>success = True, message = ''session_connected'', state = Some ''CONNECTED''\<rparr> world1p)
       = Resolved ()"
    by (simp add: deleteSession_eval world1p_simps drv0_simps fs0_paths)
  show ?thesis
    using a e r
      deleteSession_removes_directory_and_entry [of world1p "''1''" cfg0 drv0
        "\<lparr>success = True, message = ''session_connected'', state = Some ''CONNECTED''\<rparr>"]
      deleteSession_removes_directory_and_entry [of world1p "''2''" cfg0 drv0
        "\<lparr>success = False, message = ''session_not_found'', state = None\<rparr>"]
    by simp
qed

text \<open>
  Claim C5 says that \<^verbatim>\<open>deleteSession\<close> calls the driver's logout for a validation
  that succeeded and its destroy for every other validation. Destroy is called for the
  message \<^verbatim>\<open>session_not_connected\<close> only. The failing input: tenant 1 has its page,
  the browser tab is closed, the validation is the failure \<^verbatim>\<open>browser tab closed\<close>,
  and \<^verbatim>\<open>deleteSession\<close> runs to its end without any call of destroy.
\<close>

theorem deleteSession_no_destroy_counterexample:
  "validateSession drvClosed ''1'' world1
     = (Resolved \<lparr>success = False, message = ''browser tab closed'', state = None\<rparr>, world1p)
   \<and> sessions world1p ''1'' = Some 0
   \<and> fst (deleteSession cfg0 drvClosed ''1''
            \<lparr>success = False, message = ''browser tab closed'', state = None\<rparr> world1p) = Resolved ()
   \<and> trace (snd (deleteSession cfg0 drvClosed ''1''
            \<lparr>success = False, message = ''browser tab closed'', state = None\<rparr> world1p))
       = [Initialize 0, DeleteSession ''1'']"
proof -
  have v: "validateSession drvClosed ''1'' world1
     = (Resolved \<lparr>success = False, message = ''browser tab closed'', state = None\<rparr>, world1p)"
    by (simp add: validateSession_def waitForNestedObject_def world1_sessions world1_page world1p_def
          drv0_simps drvClosed_def updClient_def)
  have r: "fst (deleteSession cfg0 drvClosed ''1''
            \<lparr>success = False, message = ''browser tab closed'', state = None\<rparr> world1p) = Resolved ()"
    by (simp add: deleteSession_eval world1p_simps drvClosed_def drv0_simps fs0_paths)
  show ?thesis
    using v r by (simp add: deleteSession_trace world1p_simps)
qed

text \<open>
  Claim C5, amended: for a tenant id in the Registry whose client has its page,
  \<^verbatim>\<open>deleteSession\<close> calls the driver's logout when the validation succeeded, its
  destroy when the validation failed with the message \<^verbatim>\<open>session_not_connected\<close>, and
  neither for any other failed validation; when the client has no page yet it calls
  neither. These are its only driver calls.
\<close>

theorem deleteSession_sign_out:
  assumes "sessions w sessionId = Some h"
  shows "trace (snd (deleteSession cfg drv sessionId v w))
           = trace w @ [DeleteSession sessionId]
               @ (if pupPage (clients w h) = None then []
                  else if success v then [Logout h]
                  else if message v = ''session_not_connected'' then [Destroy h]
                  else [])"
  using assms by (simp add: deleteSession_trace)

theorem deleteSession_sign_out_witness:
  "trace (snd (deleteSession cfg0 drv0 ''1''
       \<lparr>success = True, message = ''session_connected'', state = Some ''CONNECTED''\<rparr> world1p))
     = [Initialize 0, DeleteSession ''1'', Logout 0]
   \<and> trace (snd (deleteSession cfg0 drv0 ''1''
       \<lparr>success = False, message = ''session_not_connected'', state = Some ''OPENING''\<rparr> world1p))
     = [Initialize 0, DeleteSession ''1'', Destroy 0]
   \<and> trace (snd (deleteSession cfg0 drv0 ''1''
       \<lparr>success = False, message = ''session_not_connected'', state = None\<rparr> world1))
     = [Initialize 0, DeleteSession ''1'']"
proof -
  have a: "sessions world1p ''1'' = Some 0" "sessions world1 ''1'' = Some 0"
    by (simp_all add: world1p_simps world1_sessions)
  show ?thesis
    using deleteSession_sign_out [OF a(1), of cfg0 drv0
        "\<lparr>success = True, message = ''session_connected'', state = Some ''CONNECTED''\<rparr>"]
      deleteSession_sign_out [OF a(1), of cfg0 drv0
        "\<lparr>success = False, message = ''session_not_connected'', state = Some ''OPENING''\<rparr>"]
      deleteSession_sign_out [OF a(2), of cfg0 drv0
        "\<lparr>success = False, message = ''session_not_connected'', state = None\<rparr>"]
    by (simp add: world1p_simps world1_page world1_fs)
qed

subsection \<open>Flushing sessions\<close>

lemma connected_iff:
  "connected drv w sessionId =
     (\<exists>h. sessions w sessionId = Some h
        \<and> (pupPage (clients w h) \<noteq> None \<or> materialises drv h)
        \<and> pageIsClosed drv h = Inr False
        \<and> getState drv h = Resolved (Some ''CONNECTED''))"
  by (auto simp add: connected_def validateSession_def waitForNestedObject_def updClient_def
        failure_def split: option.splits outcome.splits if_splits sum.splits bool.splits)

lemma validateSession_frame:
  assumes "validateSession drv i w = (r, wv)"
  shows "sessions wv = sessions w \<and> fs wv = fs w \<and> trace wv = trace w
     \<and> (\<forall>h. (pupPage (clients wv h) \<noteq> None \<or> materialises drv h)
             = (pupPage (clients w h) \<noteq> None \<or> materialises drv h))"
  using assms
  by (auto simp add: validateSession_def waitForNestedObject_def updClient_def
        split: option.splits outcome.splits if_splits sum.splits bool.splits)

lemma validateSession_page:
  assumes "validateSession drv i w = (r, wv)" and "sessions w i = Some h"
    and "pupPage (clients w h) \<noteq> None \<or> materialises drv h"
  shows "pupPage (clients wv h) \<noteq> None"
  using assms
  by (auto simp add: validateSession_def waitForNestedObject_def updClient_def
        split: option.splits outcome.splits if_splits sum.splits bool.splits)

lemma validateSession_never_rejects: "fst (validateSession drv i w) \<noteq> Rejected e"
  by (auto simp add: validateSession_def waitForNestedObject_def
        split: option.splits outcome.splits if_splits sum.splits bool.splits)

lemma validateSession_connected:
  "validateSession drv i w = (r, wv) \<Longrightarrow> connected drv wv sessionId = connected drv w sessionId"
  using validateSession_frame [of drv i w r wv] by (simp add: connected_iff)

lemma validateSession_success:
  "validateSession drv i w = (Resolved v, wv) \<Longrightarrow> success v = connected drv w i"
  by (simp add: connected_def)

lemma signedOut_clients:
  "(pupPage (clients (snd (signedOut drv h v i w)) h') = None) = (pupPage (clients w h') = None)"
  by (simp add: signedOut_def signOut_def removeAllListeners_frame record_call_def)

lemma afterSignOut_clients:
  "(pupPage (clients (afterSignOut drv h v i w) h') = None) = (pupPage (clients w h') = None)"
  by (simp add: afterSignOut_def Let_def signedOut_clients)

lemma signedOut_outcome:
  "fst (signedOut drv h v i w)
     = (if success v then logout drv h
        else if message v = ''session_not_connected'' then destroy drv h else Resolved ())"
  by (simp add: signedOut_def signOut_def)

lemma deleteSession_frame:
  assumes "deleteSession cfg drv i v w = (r, wd)"
  shows "(\<forall>j. j \<noteq> i \<longrightarrow> sessions wd j = sessions w j)
     \<and> (\<forall>j. sessions w j = None \<longrightarrow> sessions wd j = None)
     \<and> (\<forall>h. (pupPage (clients wd h) = None) = (pupPage (clients w h) = None))
     \<and> canon (fs wd) = canon (fs w)
     \<and> (\<forall>p. p \<noteq> canon (fs w) (targetDirPath cfg i)
             \<and> p \<noteq> dirname (canon (fs w) (targetDirPath cfg i))
           \<longrightarrow> dirs (fs wd) p = dirs (fs w) p)
     \<and> (\<forall>p. p \<noteq> canon (fs w) (targetDirPath cfg i)
           \<longrightarrow> (dirs (fs wd) p = None) = (dirs (fs w) p = None))
     \<and> (\<forall>p. dirs (fs w) p = None \<longrightarrow> dirs (fs wd) p = None)
     \<and> ((dirs (fs wd) (canon (fs w) (sessionFolderPath cfg)) = None)
          = (dirs (fs w) (canon (fs w) (sessionFolderPath cfg)) = None))"
proof (cases "sessions w i")
  case None
  with assms show ?thesis by (auto simp add: deleteSession_absent record_call_def)
next
  case entry: (Some h)
  show ?thesis
  proof (cases "pupPage (clients w h)")
    case None
    with assms entry show ?thesis by (auto simp add: deleteSession_no_page record_call_def)
  next
    case (Some ls)
    note u = deleteSession_with_page [OF entry Some, of cfg drv v]
    show ?thesis
    proof (cases "fst (signedOut drv h v i w)")
      case (Resolved x)
      obtain r4 w4
        where d: "deleteSessionFolder cfg i (afterSignOut drv h v i w) = (r4, w4)"
        by (cases "deleteSessionFolder cfg i (afterSignOut drv h v i w)")
      note fr = deleteSessionFolder_frame [OF d, unfolded afterSignOut_frame]
      have "w4 = wd \<or> wd = w4\<lparr>sessions := (sessions w4)(i := None)\<rparr>"
        using assms unfolding u Resolved d by (cases r4) auto
      then show ?thesis
      proof
        assume "w4 = wd"
        with fr show ?thesis by (simp add: afterSignOut_frame afterSignOut_clients)
      next
        assume "wd = w4\<lparr>sessions := (sessions w4)(i := None)\<rparr>"
        with fr show ?thesis by (simp add: afterSignOut_frame afterSignOut_clients)
      qed
    next
      case (Rejected e)
      with assms have "wd = snd (signedOut drv h v i w)" unfolding u by simp
      then show ?thesis by (simp add: signedOut_frame signedOut_clients)
    next
      case Pending
      with assms have "wd = snd (signedOut drv h v i w)" unfolding u by simp
      then show ?thesis by (simp add: signedOut_frame signedOut_clients)
    qed
  qed
qed

lemma deleteSession_connected:
  assumes "deleteSession cfg drv i v w = (r, wd)" and "i \<noteq> sessionId"
  shows "connected drv wd sessionId = connected drv w sessionId"
  using deleteSession_frame [OF assms(1)] assms(2) by (simp add: connected_iff)

text \<open>
  When the tenant is in the Registry with its page, the sign-out does not throw and the
  deletion of the directory succeeds, \<^verbatim>\<open>deleteSession\<close> removes the directory and
  the Registry entry, unless the sign-out never settles.
\<close>

lemma deleteSession_completes:
  assumes "sessions w i = Some h" and "pupPage (clients w h) \<noteq> None"
    and "\<forall>e. logout drv h \<noteq> Rejected e" and "\<forall>e. destroy drv h \<noteq> Rejected e"
    and "fst (deleteSessionFolder cfg i w) = Resolved ()"
    and "deleteSession cfg drv i v w = (r, wd)"
  shows "r = Pending
     \<or> (r = Resolved () \<and> sessions wd i = None
        \<and> dirs (fs wd) (canon (fs w) (targetDirPath cfg i)) = None)"
proof -
  obtain ls where page: "pupPage (clients w h) = Some ls"
    using assms(2) by auto
  note u = deleteSession_with_page [OF assms(1) page, of cfg drv v]
  show ?thesis
  proof (cases "fst (signedOut drv h v i w)")
    case Pending
    with assms(6) show ?thesis unfolding u by simp
  next
    case (Rejected e)
    with assms(3,4) show ?thesis
      by (simp add: signedOut_outcome split: if_splits)
  next
    case (Resolved x)
    obtain r4 w4
      where d: "deleteSessionFolder cfg i (afterSignOut drv h v i w) = (r4, w4)"
      by (cases "deleteSessionFolder cfg i (afterSignOut drv h v i w)")
    have "fst (deleteSessionFolder cfg i (afterSignOut drv h v i w))
            = fst (deleteSessionFolder cfg i w)"
      by (rule deleteSessionFolder_cong) (simp_all add: afterSignOut_frame)
    with d assms(5) have r4: "r4 = Resolved ()" by simp
    note fr = deleteSessionFolder_frame [OF d, unfolded afterSignOut_frame]
    from assms(6) have "r = Resolved () \<and> wd = w4\<lparr>sessions := (sessions w4)(i := None)\<rparr>"
      unfolding u Resolved d r4 by auto
    with fr r4 show ?thesis by simp
  qed
qed

lemma matched_simps:
  "matched [] = []"
  "matched (f # fs') = (case matchSession f of None \<Rightarrow> [] | Some i \<Rightarrow> [i]) @ matched fs'"
  by (simp_all add: matched_def)

lemma flushLoop_inactive_only:
  assumes "connected drv w sessionId"
    and "flushLoop cfg drv True files w = (r, w')"
  shows "count_list (trace w') (DeleteSession sessionId) = count_list (trace w) (DeleteSession sessionId)
     \<and> sessions w' sessionId = sessions w sessionId
     \<and> canon (fs w') = canon (fs w)
     \<and> ((\<forall>i \<in> set (matched files). i \<noteq> sessionId \<longrightarrow>
           canon (fs w) (targetDirPath cfg i) \<noteq> canon (fs w) (targetDirPath cfg sessionId))
        \<longrightarrow> (dirs (fs w') (canon (fs w) (targetDirPath cfg sessionId)) = None)
             = (dirs (fs w) (canon (fs w) (targetDirPath cfg sessionId)) = None))"
  using assms
proof (induction files arbitrary: w)
  case Nil
  then show ?case by simp
next
  case (Cons fl files)
  show ?case
  proof (cases "matchSession fl")
    case None
    with Cons.prems have "flushLoop cfg drv True files w = (r, w')"
      by simp
    from Cons.IH [OF Cons.prems(1) this] None show ?thesis
      by (simp add: matched_simps)
  next
    case (Some i)
    obtain rv wv where val: "validateSession drv i w = (rv, wv)"
      by (cases "validateSession drv i w")
    note vf = validateSession_frame [OF val]
    have c1: "connected drv wv sessionId"
      using validateSession_connected [OF val] Cons.prems(1) by simp
    show ?thesis
    proof (cases rv)
      case Pending
      with Cons.prems(2) Some val have "w' = wv" by simp
      with vf show ?thesis by simp
    next
      case (Rejected e)
      with Cons.prems(2) Some val have "flushLoop cfg drv True files wv = (r, w')" by simp
      from Cons.IH [OF c1 this] vf Some show ?thesis by (simp add: matched_simps)
    next
      case (Resolved v)
      show ?thesis
      proof (cases "success v")
        case True
        with Cons.prems(2) Some val Resolved have "flushLoop cfg drv True files wv = (r, w')"
          by simp
        from Cons.IH [OF c1 this] vf Some show ?thesis by (simp add: matched_simps)
      next
        case False
        with validateSession_success [of drv i w v wv] val Resolved Cons.prems(1)
        have ne: "i \<noteq> sessionId" by auto
        obtain rd wd where del: "deleteSession cfg drv i v wv = (rd, wd)"
          by (cases "deleteSession cfg drv i v wv")
        note df = deleteSession_frame [OF del]
        have c2: "connected drv wd sessionId"
          using deleteSession_connected [OF del ne] c1 by simp
        have t2: "count_list (trace wd) (DeleteSession sessionId)
                    = count_list (trace w) (DeleteSession sessionId)"
          using deleteSession_trace [of cfg drv i v wv] del vf ne
          by (auto split: option.splits if_splits)
        have d2: "canon (fs w) (targetDirPath cfg i) \<noteq> canon (fs w) (targetDirPath cfg sessionId)
                  \<longrightarrow> (dirs (fs wd) (canon (fs w) (targetDirPath cfg sessionId)) = None)
                        = (dirs (fs w) (canon (fs w) (targetDirPath cfg sessionId)) = None)"
          using df vf by auto
        have s2: "sessions wd sessionId = sessions w sessionId" "canon (fs wd) = canon (fs w)"
          using df vf ne by simp_all
        have fin: ?thesis if "w' = wd \<or> flushLoop cfg drv True files wd = (r, w')"
          using that
        proof
          assume "w' = wd"
          with t2 s2 d2 Some ne show ?thesis by (auto simp add: matched_simps)
        next
          assume "flushLoop cfg drv True files wd = (r, w')"
          from Cons.IH [OF c2 this] t2 s2 d2 Some ne show ?thesis
            by (auto simp add: matched_simps)
        qed
        show ?thesis
        proof (cases rd)
          case Pending
          with Cons.prems(2) Some val Resolved False del have "w' = wd" by simp
          with fin show ?thesis by simp
        next
          case (Rejected e)
          with Cons.prems(2) Some val Resolved False del
          have "flushLoop cfg drv True files wd = (r, w')" by simp
          with fin show ?thesis by simp
        next
          case (Resolved u)
          with Cons.prems(2) Some val \<open>rv = Resolved v\<close> False del
          have "flushLoop cfg drv True files wd = (r, w')" by simp
          with fin show ?thesis by simp
        qed
      qed
    qed
  qed
qed

lemma flushLoop_trace_grows:
  "flushLoop cfg drv b files w = (r, w') \<Longrightarrow> \<exists>added. trace w' = trace w @ added"
proof (induction files arbitrary: w)
  case Nil
  then show ?case by simp
next
  case (Cons fl files)
  show ?case
  proof (cases "matchSession fl")
    case None
    with Cons show ?thesis by simp
  next
    case (Some i)
    obtain rv wv where val: "validateSession drv i w = (rv, wv)"
      by (cases "validateSession drv i w")
    note vf = validateSession_frame [OF val]
    show ?thesis
    proof (cases rv)
      case Pending
      with Cons.prems Some val vf show ?thesis by simp
    next
      case (Rejected e)
      with Cons.prems Some val have "flushLoop cfg drv b files wv = (r, w')" by simp
      from Cons.IH [OF this] vf show ?thesis by simp
    next
      case (Resolved v)
      obtain rd wd where del: "deleteSession cfg drv i v wv = (rd, wd)"
        by (cases "deleteSession cfg drv i v wv")
      have td: "\<exists>added. trace wd = trace w @ added"
        using deleteSession_trace [of cfg drv i v wv] del vf by auto
      have "w' = wv \<or> w' = wd \<or> flushLoop cfg drv b files wv = (r, w')
            \<or> flushLoop cfg drv b files wd = (r, w')"
        using Cons.prems Some val Resolved del
        by (cases rd) (auto split: if_splits)
      with Cons.IH [of wv] Cons.IH [of wd] td vf show ?thesis by auto
    qed
  qed
qed

text \<open>The loop creates no directory and no Registry entry.\<close>

lemma flushLoop_persist:
  "flushLoop cfg drv b files w = (r, w') \<Longrightarrow>
     canon (fs w') = canon (fs w)
     \<and> (\<forall>p. dirs (fs w) p = None \<longrightarrow> dirs (fs w') p = None)
     \<and> (\<forall>j. sessions w j = None \<longrightarrow> sessions w' j = None)"
proof (induction files arbitrary: w)
  case Nil
  then show ?case by simp
next
  case (Cons fl files)
  show ?case
  proof (cases "matchSession fl")
    case None
    with Cons show ?thesis by simp
  next
    case (Some i)
    obtain rv wv where val: "validateSession drv i w = (rv, wv)"
      by (cases "validateSession drv i w")
    note vf = validateSession_frame [OF val]
    show ?thesis
    proof (cases rv)
      case Pending
      with Cons.prems Some val vf show ?thesis by simp
    next
      case (Rejected e)
      with Cons.prems Some val have "flushLoop cfg drv b files wv = (r, w')" by simp
      from Cons.IH [OF this] vf show ?thesis by simp
    next
      case (Resolved v)
      obtain rd wd where del: "deleteSession cfg drv i v wv = (rd, wd)"
        by (cases "deleteSession cfg drv i v wv")
      note df = deleteSession_frame [OF del]
      have pd: "canon (fs wd) = canon (fs w)
         \<and> (\<forall>p. dirs (fs w) p = None \<longrightarrow> dirs (fs wd) p = None)
         \<and> (\<forall>j. sessions w j = None \<longrightarrow> sessions wd j = None)"
        using df vf by simp
      have pv: "canon (fs wv) = canon (fs w)
         \<and> (\<forall>p. dirs (fs w) p = None \<longrightarrow> dirs (fs wv) p = None)
         \<and> (\<forall>j. sessions w j = None \<longrightarrow> sessions wv j = None)"
        using vf by simp
      have "w' = wv \<or> w' = wd \<or> flushLoop cfg drv b files wv = (r, w')
            \<or> flushLoop cfg drv b files wd = (r, w')"
        using Cons.prems Some val Resolved del
        by (cases rd) (auto split: if_splits)
      with Cons.IH [of wv] Cons.IH [of wd] pd pv show ?thesis by auto
    qed
  qed
qed

lemma flushLoop_all:
  assumes "flushLoop cfg drv False files w = (Resolved (), w')"
  shows "\<forall>i \<in> set (matched files).
           count_list (trace w) (DeleteSession i) < count_list (trace w') (DeleteSession i)"
  using assms
proof (induction files arbitrary: w)
  case Nil
  then show ?case by (simp add: matched_simps)
next
  case (Cons fl files)
  show ?case
  proof (cases "matchSession fl")
    case None
    with Cons show ?thesis by (simp add: matched_simps)
  next
    case (Some i)
    obtain rv wv where val: "validateSession drv i w = (rv, wv)"
      by (cases "validateSession drv i w")
    note vf = validateSession_frame [OF val]
    show ?thesis
    proof (cases rv)
      case Pending
      with Cons.prems Some val show ?thesis by simp
    next
      case (Rejected e)
      with validateSession_never_rejects [of drv i w e] val show ?thesis by simp
    next
      case (Resolved v)
      obtain rd wd where del: "deleteSession cfg drv i v wv = (rd, wd)"
        by (cases "deleteSession cfg drv i v wv")
      obtain calls where td: "trace wd = trace w @ [DeleteSession i] @ calls"
        using deleteSession_trace [of cfg drv i v wv] del vf by auto
      have rest: "flushLoop cfg drv False files wd = (Resolved (), w')"
        using Cons.prems Some val Resolved del by (cases rd) auto
      obtain added where g: "trace w' = trace wd @ added"
        using flushLoop_trace_grows [OF rest] by blast
      have here: "count_list (trace w) (DeleteSession i) < count_list (trace w') (DeleteSession i)"
        by (simp add: g td)
      have later: "count_list (trace w) (DeleteSession j) < count_list (trace w') (DeleteSession j)"
        if "j \<in> set (matched files)" for j
      proof -
        from Cons.IH [OF rest] that
        have "count_list (trace wd) (DeleteSession j) < count_list (trace w') (DeleteSession j)"
          by blast
        then show ?thesis by (simp add: td)
      qed
      from here later Some show ?thesis
        by (auto simp add: matched_simps)
    qed
  qed
qed

text \<open>
  The deletion by \<^verbatim>\<open>flushSessions(false)\<close>: the invariant is that the tenant is in
  the Registry, that its page is there or will come, and that the deletion of its
  directory would succeed; the terminations of the other tenants keep it, as they touch
  neither that directory nor the existence of the credential root.
\<close>

lemma flushLoop_deletes:
  assumes "flushLoop cfg drv False files w = (Resolved (), w')"
    and "i \<in> set (matched files)"
    and "sessions w i = Some h"
    and "pupPage (clients w h) \<noteq> None \<or> materialises drv h"
    and "\<forall>e. logout drv h \<noteq> Rejected e" and "\<forall>e. destroy drv h \<noteq> Rejected e"
    and "fst (deleteSessionFolder cfg i w) = Resolved ()"
    and "\<forall>j \<in> set (matched files). j \<noteq> i \<longrightarrow>
           canon (fs w) (targetDirPath cfg j) \<noteq> canon (fs w) (targetDirPath cfg i)
           \<and> dirname (canon (fs w) (targetDirPath cfg j)) \<noteq> canon (fs w) (targetDirPath cfg i)"
  shows "dirs (fs w') (canon (fs w) (targetDirPath cfg i)) = None \<and> sessions w' i = None"
  using assms(1-4,7,8)
proof (induction files arbitrary: w)
  case Nil
  then show ?case by (simp add: matched_simps)
next
  case (Cons fl files)
  show ?case
  proof (cases "matchSession fl")
    case None
    with Cons.prems have "flushLoop cfg drv False files w = (Resolved (), w')"
      "i \<in> set (matched files)"
      "\<forall>j \<in> set (matched files). j \<noteq> i \<longrightarrow>
           canon (fs w) (targetDirPath cfg j) \<noteq> canon (fs w) (targetDirPath cfg i)
           \<and> dirname (canon (fs w) (targetDirPath cfg j)) \<noteq> canon (fs w) (targetDirPath cfg i)"
      by (simp_all add: matched_simps)
    from Cons.IH [OF this(1,2) Cons.prems(3,4,5) this(3)] show ?thesis .
  next
    case (Some j)
    obtain rv wv where val: "validateSession drv j w = (rv, wv)"
      by (cases "validateSession drv j w")
    note vf = validateSession_frame [OF val]
    show ?thesis
    proof (cases rv)
      case Pending
      with Cons.prems(1) Some val show ?thesis by simp
    next
      case (Rejected e)
      with validateSession_never_rejects [of drv j w e] val show ?thesis by simp
    next
      case (Resolved v)
      obtain rd wd where del: "deleteSession cfg drv j v wv = (rd, wd)"
        by (cases "deleteSession cfg drv j v wv")
      have np: "rd \<noteq> Pending"
        using Cons.prems(1) Some val Resolved del by auto
      have rest: "flushLoop cfg drv False files wd = (Resolved (), w')"
        using Cons.prems(1) Some val Resolved del by (cases rd) auto
      note pe = flushLoop_persist [OF rest]
      note df = deleteSession_frame [OF del]
      show ?thesis
      proof (cases "j = i")
        case True
        have s: "sessions wv i = Some h"
          using vf Cons.prems(3) by simp
        have pg: "pupPage (clients wv h) \<noteq> None"
          using validateSession_page [OF val] True Cons.prems(3,4) by simp
        have dl: "fst (deleteSessionFolder cfg i wv) = Resolved ()"
          using deleteSessionFolder_cong [of wv w cfg i] vf Cons.prems(5) by simp
        from deleteSession_completes [OF s pg assms(5,6) dl del [unfolded True]] np
        have "sessions wd i = None \<and> dirs (fs wd) (canon (fs wv) (targetDirPath cfg i)) = None"
          by simp
        with pe vf show ?thesis by simp
      next
        case False
        then have i2: "i \<in> set (matched files)"
          using Cons.prems(2) Some by (auto simp add: matched_simps)
        have pr: "canon (fs w) (targetDirPath cfg j) \<noteq> canon (fs w) (targetDirPath cfg i)"
          "dirname (canon (fs w) (targetDirPath cfg j)) \<noteq> canon (fs w) (targetDirPath cfg i)"
          using Cons.prems(6) Some False by (auto simp add: matched_simps)
        have s: "sessions wd i = Some h"
          using df vf Cons.prems(3) False by simp
        have pg: "pupPage (clients wd h) \<noteq> None \<or> materialises drv h"
          using df vf Cons.prems(4) by auto
        have cn: "canon (fs wd) = canon (fs w)"
          using df vf by simp
        have dd: "dirs (fs wd) (canon (fs w) (targetDirPath cfg i))
                    = dirs (fs w) (canon (fs w) (targetDirPath cfg i))"
          using df vf pr by auto
        have rn: "(dirs (fs wd) (canon (fs w) (sessionFolderPath cfg)) = None)
                    = (dirs (fs w) (canon (fs w) (sessionFolderPath cfg)) = None)"
          using df vf by simp
        have dl: "fst (deleteSessionFolder cfg i wd) = Resolved ()"
          using deleteSessionFolder_cong [OF cn dd rn] Cons.prems(5) by simp
        have al: "\<forall>k \<in> set (matched files). k \<noteq> i \<longrightarrow>
           canon (fs wd) (targetDirPath cfg k) \<noteq> canon (fs wd) (targetDirPath cfg i)
           \<and> dirname (canon (fs wd) (targetDirPath cfg k)) \<noteq> canon (fs wd) (targetDirPath cfg i)"
          using Cons.prems(6) cn by (simp add: matched_simps)
        from Cons.IH [OF rest i2 s pg dl al] cn show ?thesis by simp
      qed
    qed
  qed
qed

lemma world1_more: "next_handle world1 = 1" "clients world1 1 = client0"
  by (simp_all add: world1_def setupSession_def world0_simps drv0_simps Let_def initializeEvents_def
        updClient_def record_call_def)

lemma world2_simps:
  "sessions world2 = (\<lambda>i. if i = ''2'' then Some (Suc 0) else if i = ''1'' then Some 0 else None)"
  "pupPage (clients world2 0) = None" "pupPage (clients world2 (Suc 0)) = None"
  "fs world2 = fs0" "trace world2 = [Initialize 0, Initialize 1]"
  by (auto simp add: world2_def setupSession_def world1_sessions world1_more world1_page world1_fs
        drv0_simps Let_def initializeEvents_def updClient_def record_call_def newClientObject_def)

lemma drvMixed_simps:
  "materialises drvMixed h" "pageIsClosed drvMixed h = Inr False"
  "getState drvMixed 0 = Resolved (Some ''CONNECTED'')"
  "getState drvMixed (Suc 0) = Resolved (Some ''UNPAIRED'')"
  "logout drvMixed h = Resolved ()"
  "destroy drvMixed h = Resolved ()" "\<not> browserIsConnected drvMixed h k"
  by (simp_all add: drvMixed_def drv0_def)

lemma match12: "matchSession ''session-1'' = Some ''1''" "matchSession ''session-2'' = Some ''2''"
  by (simp_all add: matchSession_def)

lemma readdir0: "existsSync fs0 (sessionFolderPath cfg0)"
  "readdir fs0 (sessionFolderPath cfg0) = Inr [''session-1'', ''session-2'']"
  by (simp_all add: existsSync_def readdir_def realpath_def readdirAt_def fs0_paths)

lemma split0:
  "dirname ''/srv/sessions/session-1'' = ''/srv/sessions''"
  "dirname ''/srv/sessions/session-2'' = ''/srv/sessions''"
  "basename ''/srv/sessions/session-1'' = ''session-1''"
  "basename ''/srv/sessions/session-2'' = ''session-2''"
  by (simp_all add: dirname_def basename_def)

lemma flushTrue:
  "fst (flushSessions cfg0 drvMixed True world2) = Resolved ()"
  "trace (snd (flushSessions cfg0 drvMixed True world2))
     = [Initialize 0, Initialize 1, DeleteSession ''2'', Destroy 1]"
  "existsSync (fs (snd (flushSessions cfg0 drvMixed True world2))) (targetDirPath cfg0 ''1'')"
  "\<not> existsSync (fs (snd (flushSessions cfg0 drvMixed True world2))) (targetDirPath cfg0 ''2'')"
  "readdir (fs (snd (flushSessions cfg0 drvMixed True world2))) (sessionFolderPath cfg0)
     = Inr [''session-1'']"
  by (simp_all add: flushSessions_def world2_simps readdir0 match12 validateSession_def
        waitForNestedObject_def drvMixed_simps deleteSession_eval fs0_paths split0 readdir_def)

lemma flushFalse1:
  "fst (flushSessions cfg0 drv0 False world1) = Resolved ()"
  "existsSync (fs (snd (flushSessions cfg0 drv0 False world1))) (targetDirPath cfg0 ''2'')"
  "trace (snd (flushSessions cfg0 drv0 False world1))
     = [Initialize 0, DeleteSession ''1'', Logout 0, DeleteSession ''2'']"
  by (simp_all add: flushSessions_def world1_sessions world1_page world1_fs readdir0 match12
        validateSession_def waitForNestedObject_def drv0_simps deleteSession_eval fs0_paths split0)

text \<open>
  Claim C2 says that \<^verbatim>\<open>flushSessions(true)\<close> never terminates a tenant whose
  validation succeeds nor deletes its directory, and that \<^verbatim>\<open>flushSessions(false)\<close>
  deletes the directory of every discovered tenant. \<^verbatim>\<open>flushSessions(false)\<close> calls
  \<^verbatim>\<open>deleteSession\<close> for every discovered tenant, and \<^verbatim>\<open>deleteSession\<close> returns at
  once for a tenant that is not in the Registry. The failing input: the directories of
  tenants 1 and 2 exist, only tenant 1 has been started; after the flush the directory
  of tenant 2 is still there.
\<close>

theorem flushSessions_all_leaves_directory_counterexample:
  "discovered cfg0 world1 = [''1'', ''2'']
   \<and> fst (flushSessions cfg0 drv0 False world1) = Resolved ()
   \<and> existsSync (fs (snd (flushSessions cfg0 drv0 False world1))) (targetDirPath cfg0 ''2'')"
  using flushFalse1 by (simp add: discovered_def world1_fs readdir0 matched_simps match12)

text \<open>
  Claim C2, amended. \<^verbatim>\<open>flushSessions(true)\<close> makes no call of \<^verbatim>\<open>deleteSession\<close>
  for a tenant whose validation succeeds, keeps its Registry entry and does not delete
  its directory, as long as no other discovered tenant's directory path resolves to the
  same real directory. \<^verbatim>\<open>flushSessions(false)\<close>, when it completes, has called
  \<^verbatim>\<open>deleteSession\<close> for every discovered tenant, whatever its validation, and has
  deleted the directory and the Registry entry of every discovered tenant that is in the
  Registry, whose page is there or appears during the validation, and for which nothing
  throws: the driver's logout and destroy do not reject, and the deletion of its
  directory succeeds on the file system as it is before the flush, no other discovered
  tenant's directory path resolving to that directory or to one directly inside it.
\<close>

theorem flushSessions_inactive_only_and_all:
  "(connected drv w sessionId \<longrightarrow>
      count_list (trace (snd (flushSessions cfg drv True w))) (DeleteSession sessionId)
        = count_list (trace w) (DeleteSession sessionId)
      \<and> sessions (snd (flushSessions cfg drv True w)) sessionId = sessions w sessionId
      \<and> ((\<forall>i \<in> set (discovered cfg w). i \<noteq> sessionId \<longrightarrow>
             canon (fs w) (targetDirPath cfg i) \<noteq> canon (fs w) (targetDirPath cfg sessionId))
           \<longrightarrow> existsSync (fs (snd (flushSessions cfg drv True w))) (targetDirPath cfg sessionId)
                 = existsSync (fs w) (targetDirPath cfg sessionId)))
   \<and> (fst (flushSessions cfg drv False w) = Resolved () \<longrightarrow>
        (\<forall>i \<in> set (discovered cfg w).
           count_list (trace w) (DeleteSession i)
             < count_list (trace (snd (flushSessions cfg drv False w))) (DeleteSession i)
           \<and> (\<forall>h. sessions w i = Some h
                  \<and> (pupPage (clients w h) \<noteq> None \<or> materialises drv h)
                  \<and> (\<forall>e. logout drv h \<noteq> Rejected e) \<and> (\<forall>e. destroy drv h \<noteq> Rejected e)
                  \<and> fst (deleteSessionFolder cfg i w) = Resolved ()
                  \<and> (\<forall>j \<in> set (discovered cfg w). j \<noteq> i \<longrightarrow>
                        canon (fs w) (targetDirPath cfg j) \<noteq> canon (fs w) (targetDirPath cfg i)
                        \<and> dirname (canon (fs w) (targetDirPath cfg j))
                            \<noteq> canon (fs w) (targetDirPath cfg i))
                \<longrightarrow> \<not> existsSync (fs (snd (flushSessions cfg drv False w))) (targetDirPath cfg i)
                    \<and> sessions (snd (flushSessions cfg drv False w)) i = None)))"
proof (cases "readdir (fs w) (sessionFolderPath cfg)")
  case (Inl e)
  then show ?thesis
    by (simp add: flushSessions_def discovered_def)
next
  case (Inr files)
  then have ex: "existsSync (fs w) (sessionFolderPath cfg)"
    by (simp add: readdir_def existsSync_def split: sum.splits)
  have f: "flushSessions cfg drv b w = flushLoop cfg drv b files w" for b
    by (simp add: flushSessions_def ex Inr)
  have d: "discovered cfg w = matched files"
    by (simp add: discovered_def Inr)
  have partA: "count_list (trace (snd (flushLoop cfg drv True files w))) (DeleteSession sessionId)
        = count_list (trace w) (DeleteSession sessionId)
      \<and> sessions (snd (flushLoop cfg drv True files w)) sessionId = sessions w sessionId
      \<and> ((\<forall>i \<in> set (matched files). i \<noteq> sessionId \<longrightarrow>
             canon (fs w) (targetDirPath cfg i) \<noteq> canon (fs w) (targetDirPath cfg sessionId))
           \<longrightarrow> existsSync (fs (snd (flushLoop cfg drv True files w))) (targetDirPath cfg sessionId)
                 = existsSync (fs w) (targetDirPath cfg sessionId))"
    if c: "connected drv w sessionId"
  proof -
    obtain r w' where l: "flushLoop cfg drv True files w = (r, w')"
      by (cases "flushLoop cfg drv True files w")
    from flushLoop_inactive_only [OF c l] l show ?thesis
      by (auto simp add: existsSync_def realpath_def split: option.splits)
  qed
  have partB: "count_list (trace w) (DeleteSession i)
             < count_list (trace (snd (flushLoop cfg drv False files w))) (DeleteSession i)
           \<and> (\<forall>h. sessions w i = Some h
                  \<and> (pupPage (clients w h) \<noteq> None \<or> materialises drv h)
                  \<and> (\<forall>e. logout drv h \<noteq> Rejected e) \<and> (\<forall>e. destroy drv h \<noteq> Rejected e)
                  \<and> fst (deleteSessionFolder cfg i w) = Resolved ()
                  \<and> (\<forall>j \<in> set (matched files). j \<noteq> i \<longrightarrow>
                        canon (fs w) (targetDirPath cfg j) \<noteq> canon (fs w) (targetDirPath cfg i)
                        \<and> dirname (canon (fs w) (targetDirPath cfg j))
                            \<noteq> canon (fs w) (targetDirPath cfg i))
                \<longrightarrow> \<not> existsSync (fs (snd (flushLoop cfg drv False files w))) (targetDirPath cfg i)
                    \<and> sessions (snd (flushLoop cfg drv False files w)) i = None)"
    if res: "fst (flushLoop cfg drv False files w) = Resolved ()" and i: "i \<in> set (matched files)"
    for i
  proof -
    obtain w' where l: "flushLoop cfg drv False files w = (Resolved (), w')"
      using res by (cases "flushLoop cfg drv False files w") simp
    note pe = flushLoop_persist [OF l]
    have one: "count_list (trace w) (DeleteSession i) < count_list (trace w') (DeleteSession i)"
      using flushLoop_all [OF l] i by blast
    have two: "\<not> existsSync (fs w') (targetDirPath cfg i) \<and> sessions w' i = None"
      if "sessions w i = Some h" "pupPage (clients w h) \<noteq> None \<or> materialises drv h"
        "\<forall>e. logout drv h \<noteq> Rejected e" "\<forall>e. destroy drv h \<noteq> Rejected e"
        "fst (deleteSessionFolder cfg i w) = Resolved ()"
        "\<forall>j \<in> set (matched files). j \<noteq> i \<longrightarrow>
            canon (fs w) (targetDirPath cfg j) \<noteq> canon (fs w) (targetDirPath cfg i)
            \<and> dirname (canon (fs w) (targetDirPath cfg j)) \<noteq> canon (fs w) (targetDirPath cfg i)"
      for h
      using flushLoop_deletes [OF l i that] pe
      by (simp add: existsSync_def realpath_def)
    from one two show ?thesis
      unfolding l snd_conv by blast
  qed
  from partA partB show ?thesis
    unfolding f d by blast
qed

theorem flushSessions_inactive_only_and_all_witness:
  "connected drvMixed world2 ''1''
   \<and> discovered cfg0 world2 = [''1'', ''2'']
   \<and> count_list (trace (snd (flushSessions cfg0 drvMixed True world2))) (DeleteSession ''1'') = 0
   \<and> sessions (snd (flushSessions cfg0 drvMixed True world2)) ''1'' = Some 0
   \<and> existsSync (fs (snd (flushSessions cfg0 drvMixed True world2))) (targetDirPath cfg0 ''1'')
   \<and> \<not> existsSync (fs (snd (flushSessions cfg0 drvMixed True world2))) (targetDirPath cfg0 ''2'')
   \<and> fst (flushSessions cfg0 drvMixed False world2) = Resolved ()
   \<and> 0 < count_list (trace (snd (flushSessions cfg0 drvMixed False world2))) (DeleteSession ''1'')
   \<and> 0 < count_list (trace (snd (flushSessions cfg0 drvMixed False world2))) (DeleteSession ''2'')
   \<and> existsSync (fs world2) (targetDirPath cfg0 ''1'')
   \<and> \<not> existsSync (fs (snd (flushSessions cfg0 drvMixed False world2))) (targetDirPath cfg0 ''1'')
   \<and> sessions (snd (flushSessions cfg0 drvMixed False world2)) ''1'' = None"
proof -
  have c: "connected drvMixed world2 ''1''"
    by (simp add: connected_iff world2_simps drvMixed_simps)
  have d: "discovered cfg0 world2 = [''1'', ''2'']"
    by (simp add: discovered_def world2_simps readdir0 matched_simps match12)
  have a: "\<forall>i \<in> set (discovered cfg0 world2). i \<noteq> ''1'' \<longrightarrow>
             canon (fs world2) (targetDirPath cfg0 i) \<noteq> canon (fs world2) (targetDirPath cfg0 ''1'')"
    by (simp add: d world2_simps fs0_paths)
  have a2: "\<forall>j \<in> set (discovered cfg0 world2). j \<noteq> ''1'' \<longrightarrow>
             canon (fs world2) (targetDirPath cfg0 j) \<noteq> canon (fs world2) (targetDirPath cfg0 ''1'')
             \<and> dirname (canon (fs world2) (targetDirPath cfg0 j))
                 \<noteq> canon (fs world2) (targetDirPath cfg0 ''1'')"
    by (simp add: d world2_simps fs0_paths split0)
  have r: "fst (flushSessions cfg0 drvMixed False world2) = Resolved ()"
    by (simp add: flushSessions_def world2_simps readdir0 match12 validateSession_def
          waitForNestedObject_def drvMixed_simps deleteSession_eval fs0_paths split0)
  have e: "existsSync (fs world2) (targetDirPath cfg0 ''1'')"
    by (simp add: existsSync_def realpath_def world2_simps fs0_paths)
  have s: "sessions world2 ''1'' = Some 0" "materialises drvMixed 0"
    "\<forall>e. logout drvMixed 0 \<noteq> Rejected e" "\<forall>e. destroy drvMixed 0 \<noteq> Rejected e"
    by (simp_all add: world2_simps drvMixed_simps)
  have f: "fst (deleteSessionFolder cfg0 ''1'' world2) = Resolved ()"
    by (simp add: deleteSession_eval world2_simps fs0_paths split0)
  have m: "''1'' \<in> set (discovered cfg0 world2)" "''2'' \<in> set (discovered cfg0 world2)"
    by (simp_all add: d)
  note t = flushSessions_inactive_only_and_all [of drvMixed world2 "''1''" cfg0]
  note tA = t [THEN conjunct1, THEN mp, OF c]
  note tA3 = tA [THEN conjunct2, THEN conjunct2, THEN mp, OF a]
  note tB = t [THEN conjunct2, THEN mp, OF r]
  note tB1 = tB [THEN bspec, OF m(1), THEN conjunct1] tB [THEN bspec, OF m(2), THEN conjunct1]
  have h: "sessions world2 ''1'' = Some 0
         \<and> (pupPage (clients world2 0) \<noteq> None \<or> materialises drvMixed 0)
         \<and> (\<forall>e. logout drvMixed 0 \<noteq> Rejected e) \<and> (\<forall>e. destroy drvMixed 0 \<noteq> Rejected e)
         \<and> fst (deleteSessionFolder cfg0 ''1'' world2) = Resolved ()
         \<and> (\<forall>j \<in> set (discovered cfg0 world2). j \<noteq> ''1'' \<longrightarrow>
               canon (fs world2) (targetDirPath cfg0 j) \<noteq> canon (fs world2) (targetDirPath cfg0 ''1'')
               \<and> dirname (canon (fs world2) (targetDirPath cfg0 j))
                   \<noteq> canon (fs world2) (targetDirPath cfg0 ''1''))"
    using s f a2 by simp
  note tB2 = tB [THEN bspec, OF m(1), THEN conjunct2, THEN spec, THEN mp, OF h]
  show ?thesis
    using c d r e tA [THEN conjunct1] tA [THEN conjunct2, THEN conjunct1] tA3 tB1 tB2 flushTrue(4)
    by (simp add: world2_simps)
qed

subsection \<open>Events and the deny-list\<close>

lemma triggerWebhook_clients: "clients (triggerWebhook u i t d w) = clients w"
  by (simp add: triggerWebhook_def split: option.splits)

lemma sendSeen_clients: "clients (sendSeen cfg h e w) = clients w"
  by (simp add: sendSeen_def record_call_def split: outcome.splits)

lemma runListener_listeners:
  "listeners (clients (runListener cfg h l e w) h') = listeners (clients w h')"
  by (cases l)
     (simp add: runListener_def Let_def triggerWebhook_clients sendSeen_clients updClient_def
        split: outcome.splits)

lemma foldl_runListener_listeners:
  "listeners (clients (foldl (\<lambda>w' l. runListener cfg h l e w') w ls) h') = listeners (clients w h')"
  by (induction ls arbitrary: w) (simp_all add: runListener_listeners)

lemma emit_listeners: "listeners (clients (emit cfg h e w) h') = listeners (clients w h')"
  by (simp add: emit_def foldl_runListener_listeners)

lemma emit_not_subscribed:
  "\<forall>l \<in> set (listeners (clients w h)). fst l \<noteq> evName e \<Longrightarrow> emit cfg h e w = w"
proof -
  assume "\<forall>l \<in> set (listeners (clients w h)). fst l \<noteq> evName e"
  then have "filter (\<lambda>l. fst l = evName e) (listeners (clients w h)) = []"
    by (simp add: filter_empty_conv)
  then show ?thesis by (simp add: emit_def)
qed

lemma occur_not_subscribed:
  "\<forall>l \<in> set (listeners (clients w h)). fst l \<noteq> name \<Longrightarrow>
     occur h es w = occur h (filter (\<lambda>ce. evName (snd ce) \<noteq> name) es) w"
proof (induction es arbitrary: w)
  case Nil
  then show ?case by (simp add: occur_def)
next
  case (Cons ce es)
  show ?case
  proof (cases "evName (snd ce) = name")
    case True
    with Cons.prems have "emit (fst ce) h (snd ce) w = w"
      by (simp add: emit_not_subscribed)
    with Cons.IH [OF Cons.prems] True show ?thesis by (simp add: occur_def)
  next
    case False
    have "\<forall>l \<in> set (listeners (clients (emit (fst ce) h (snd ce) w) h)). fst l \<noteq> name"
      using Cons.prems by (simp add: emit_listeners)
    from Cons.IH [OF this] False show ?thesis by (simp add: occur_def)
  qed
qed

lemma setupSession_listeners:
  assumes "sessions w sessionId = None" and "success (fst (setupSession cfg drv sessionId w))"
  shows "listeners (clients (snd (setupSession cfg drv sessionId w)) (next_handle w))
           = (''qr'', sessionId, sessionWebhookOf cfg sessionId)
             # map (\<lambda>ev. (ev, sessionId, sessionWebhookOf cfg sessionId))
                 (filter (\<lambda>ev. ev \<notin> set (disabledCallbacks cfg)) gatedEvents)"
proof -
  have e: "(\<lambda>ev. checkIfEventisEnabled cfg ev = Resolved ()) = (\<lambda>ev. ev \<notin> set (disabledCallbacks cfg))"
    by (auto simp add: checkIfEventisEnabled_def)
  from assms show ?thesis
    by (auto simp add: setupSession_def Let_def initializeEvents_def updClient_def record_call_def
          newClientObject_def failure_def e split: option.splits)
qed

lemma qr_not_gated: "''qr'' \<notin> set gatedEvents"
  by (simp add: gatedEvents_def)

lemma hook0: "sessionWebhookOf cfgDenied ''1'' = Some ''http://localhost:3000/hook''"
  "sessionWebhookOf cfg0 ''1'' = Some ''http://localhost:3000/hook''"
  by (simp_all add: sessionWebhookOf_def cfgDenied_def cfg0_def)

lemma started: "sessions world0 ''1'' = None" "success (fst (setupSession cfgDenied drv0 ''1'' world0))"
  "next_handle world0 = 0" "webhooks worldDenied = []"
  by (simp_all add: setupSession_def world0_simps drv0_simps Let_def worldDenied_def
      initializeEvents_def updClient_def record_call_def)

lemma denied_facts:
  "''message'' \<in> set (disabledCallbacks cfgDenied)" "''qr'' \<in> set (disabledCallbacks cfgDenied)"
  "''qr'' \<notin> set (disabledCallbacks cfg0)" "''message'' \<noteq> ''qr''"
  "evName qrEvent = ''qr''" "evName messageEvent = ''message''"
  "evData qrEvent = ''2@pairing-code''"
  by (simp_all add: cfgDenied_def cfg0_def qrEvent_def messageEvent_def)

text \<open>
  Claim C7 says that for every driver event in the deny-list at session start no listener
  is attached and no webhook is ever dispatched, the gate being consulted once, at
  subscription. The \<^verbatim>\<open>qr\<close> listener is attached without consulting the gate, and
  consults it at each occurrence. The failing input: tenant 1 is started with \<^verbatim>\<open>qr\<close>
  in the deny-list; its client has a \<^verbatim>\<open>qr\<close> listener, and once the deny-list no
  longer holds \<^verbatim>\<open>qr\<close> a pairing code is sent to the webhook.
\<close>

theorem qr_listener_counterexample:
  "''qr'' \<in> set (disabledCallbacks cfgDenied)
   \<and> (''qr'', ''1'', Some ''http://localhost:3000/hook'') \<in> set (listeners (clients worldDenied 0))
   \<and> webhooks (emit cfg0 0 qrEvent worldDenied)
       = [Post ''http://localhost:3000/hook'' ''1'' ''qr'' ''2@pairing-code'']"
proof -
  note ls = setupSession_listeners [OF started(1,2), unfolded started(3) hook0,
      folded worldDenied_def]
  have f: "filter (\<lambda>l. fst l = ''qr'') (listeners (clients worldDenied 0))
            = [(''qr'', ''1'', Some ''http://localhost:3000/hook'')]"
    using qr_not_gated by (auto simp add: ls filter_empty_conv)
  have d: "webhooks (emit cfg0 0 qrEvent worldDenied)
             = [Post ''http://localhost:3000/hook'' ''1'' ''qr'' ''2@pairing-code'']"
    by (simp add: emit_def f denied_facts runListener_def checkIfEventisEnabled_def
        triggerWebhook_def updClient_def started(4))
  from d show ?thesis
    by (simp add: ls denied_facts)
qed

text \<open>
  Claim C7, amended. For a session that \<^verbatim>\<open>setupSession\<close> has just started and every
  event name other than \<^verbatim>\<open>qr\<close> that is in the deny-list at that time: no listener
  for the name is attached to the client, and in every history of events on the client,
  under whatever configurations, the occurrences of that event have no effect at all (no
  webhook). For \<^verbatim>\<open>qr\<close> the listener is always attached, and the gate is consulted at
  each occurrence: the webhook is sent exactly when \<^verbatim>\<open>qr\<close> is not in the deny-list
  then and a webhook URL is configured.
\<close>

theorem denied_event_never_dispatched:
  assumes "sessions w sessionId = None"
    and "success (fst (setupSession cfg drv sessionId w))"
  shows "(\<forall>name \<in> set (disabledCallbacks cfg). name \<noteq> ''qr'' \<longrightarrow>
            (\<forall>l \<in> set (listeners (clients (snd (setupSession cfg drv sessionId w)) (next_handle w))).
               fst l \<noteq> name)
            \<and> (\<forall>es. occur (next_handle w) es (snd (setupSession cfg drv sessionId w))
                    = occur (next_handle w) (filter (\<lambda>ce. evName (snd ce) \<noteq> name) es)
                        (snd (setupSession cfg drv sessionId w))))
       \<and> (''qr'', sessionId, sessionWebhookOf cfg sessionId)
             \<in> set (listeners (clients (snd (setupSession cfg drv sessionId w)) (next_handle w)))
       \<and> (\<forall>cfg' e. evName e = ''qr'' \<longrightarrow>
             webhooks (emit cfg' (next_handle w) e (snd (setupSession cfg drv sessionId w)))
               = webhooks (snd (setupSession cfg drv sessionId w))
                 @ (case sessionWebhookOf cfg sessionId of
                      None \<Rightarrow> []
                    | Some u \<Rightarrow>
                        if u \<noteq> [] \<and> ''qr'' \<notin> set (disabledCallbacks cfg')
                        then [Post u sessionId ''qr'' (evData e)] else []))"
proof -
  note ls = setupSession_listeners [OF assms]
  have no: "\<forall>l \<in> set (listeners (clients (snd (setupSession cfg drv sessionId w)) (next_handle w))).
               fst l \<noteq> name"
    if "name \<in> set (disabledCallbacks cfg)" "name \<noteq> ''qr''" for name
    using that by (auto simp add: ls)
  have qr: "filter (\<lambda>l. fst l = ''qr'')
              (listeners (clients (snd (setupSession cfg drv sessionId w)) (next_handle w)))
            = [(''qr'', sessionId, sessionWebhookOf cfg sessionId)]"
    using qr_not_gated by (auto simp add: ls filter_empty_conv)
  have third: "webhooks (emit cfg' (next_handle w) e (snd (setupSession cfg drv sessionId w)))
               = webhooks (snd (setupSession cfg drv sessionId w))
                 @ (case sessionWebhookOf cfg sessionId of
                      None \<Rightarrow> []
                    | Some u \<Rightarrow>
                        if u \<noteq> [] \<and> ''qr'' \<notin> set (disabledCallbacks cfg')
                        then [Post u sessionId ''qr'' (evData e)] else [])"
    if "evName e = ''qr''" for cfg' e
    using that
    by (auto simp add: emit_def qr runListener_def Let_def checkIfEventisEnabled_def
          triggerWebhook_def updClient_def split: option.splits)
  have first: "(\<forall>l \<in> set (listeners (clients (snd (setupSession cfg drv sessionId w)) (next_handle w))).
               fst l \<noteq> name)
            \<and> (\<forall>es. occur (next_handle w) es (snd (setupSession cfg drv sessionId w))
                    = occur (next_handle w) (filter (\<lambda>ce. evName (snd ce) \<noteq> name) es)
                        (snd (setupSession cfg drv sessionId w)))"
    if "name \<in> set (disabledCallbacks cfg)" "name \<noteq> ''qr''" for name
    using no [OF that] occur_not_subscribed [OF no [OF that]] by blast
  have second: "(''qr'', sessionId, sessionWebhookOf cfg sessionId)
             \<in> set (listeners (clients (snd (setupSession cfg drv sessionId w)) (next_handle w)))"
    by (simp add: ls)
  from first second third show ?thesis
    by blast
qed

theorem denied_event_never_dispatched_witness:
  "sessions world0 ''1'' = None
   \<and> ''message'' \<in> set (disabledCallbacks cfgDenied)
   \<and> filter (\<lambda>l. fst l = ''message'') (listeners (clients worldDenied 0)) = []
   \<and> occur 0 [(cfg0, messageEvent), (cfg0, messageEvent)] worldDenied = worldDenied
   \<and> webhooks (emit cfgDenied 0 qrEvent worldDenied) = []
   \<and> webhooks (emit cfg0 0 qrEvent worldDenied)
       = [Post ''http://localhost:3000/hook'' ''1'' ''qr'' ''2@pairing-code'']"
proof -
  note t = denied_event_never_dispatched [OF started(1,2), unfolded started(3) hook0,
      folded worldDenied_def]
  note a = t [THEN conjunct1, rule_format, OF denied_facts(1,4)]
  note a2 = a [THEN conjunct2, rule_format,
      of "[(cfg0, messageEvent), (cfg0, messageEvent)]"]
  have o: "occur 0 [(cfg0, messageEvent), (cfg0, messageEvent)] worldDenied = worldDenied"
    using a2 by (simp add: denied_facts occur_def)
  note q = t [THEN conjunct2, THEN conjunct2, rule_format, OF denied_facts(5)]
  show ?thesis
    using a [THEN conjunct1] o q [of cfgDenied] q [of cfg0]
    by (simp add: started denied_facts filter_empty_conv)
qed

subsection \<open>Crash recovery\<close>

lemma crashReady_simps:
  "sessions crashReady = (\<lambda>i. if i = ''1'' then Some 0 else None)"
  "pupPage (clients crashReady 0) = Some [(''close'', ''1''), (''error'', ''1'')]"
  "trace crashReady = [Initialize 0]" "tasks crashReady = []" "next_handle crashReady = Suc 0"
  by (auto simp add: crashReady_def cfgR_def cfg0_def setupSession_def world0_simps drv0_simps
        Let_def initializeEvents_def updClient_def record_call_def newClientObject_def resume_def
        waitForNestedObject_def)

text \<open>
  Claim C8 says that one crash of the browser page, with its \<^verbatim>\<open>close\<close> and
  \<^verbatim>\<open>error\<close> signals, leads to exactly one restart. Each of the two one-shot
  listeners calls \<^verbatim>\<open>restartSession\<close>, and neither detaches the other. When both
  signals fire while \<^verbatim>\<open>client.destroy()\<close> is pending, \<^verbatim>\<open>restartSession\<close> runs
  twice and destroys the crashed client twice, and the second \<^verbatim>\<open>setupSession\<close> is
  rejected. When the second signal fires after the first restart has ended,
  \<^verbatim>\<open>restartSession\<close> removes the new client from the Registry and a third client is
  created, the second one staying alive outside the Registry.
\<close>

theorem page_crash_restarts_twice:
  "trace crashInterleaved
     = [Initialize 0, RestartSession ''1'', Destroy 0, RestartSession ''1'', Destroy 0, Initialize 1]
   \<and> sessions crashInterleaved ''1'' = Some 1
   \<and> trace crashSequential
     = [Initialize 0, RestartSession ''1'', Destroy 0, Initialize 1,
        RestartSession ''1'', Destroy 0, Initialize 2]
   \<and> sessions crashSequential ''1'' = Some 2"
  by (simp add: crashInterleaved_def crashSequential_def crashReady_simps
      pageEmit_def restartSession_def record_call_def updClient_def Let_def resume_def drv0_simps setupSession_def
      initializeEvents_def cfgR_def cfg0_def)

end
